theory Spec2Isabelle
  imports Complex_Main "HOL-Library.Sublist"
begin

section \<open>The gateway of the veterinary clinic backend (src/api_gateway/main.py)\<close>

text \<open>
  The gateway is one Python module built on FastAPI, httpx and a Redis client. Its
  functions are embedded as HOL functions over an explicit world: the Redis database
  with its clock, and the log of the HTTP calls the gateway has issued. The backends
  are a parameter (a function from the time and the call to the call's outcome).
  Python exceptions are values of the type \<open>exn\<close>; a function that can raise returns
  \<open>exn + 'a\<close> together with the world it leaves behind.
\<close>

subsection \<open>Python values\<close>

text \<open>A decoded JSON document; \<open>JNum\<close> is a Python \<open>int\<close>, \<open>JFloat\<close> a Python \<open>float\<close>.\<close>

datatype json =
    JNull
  | JBool bool
  | JNum int
  | JFloat real
  | JStr string
  | JArr "json list"
  | JObj "(string \<times> json) list"

text \<open>Python's truth value of a decoded JSON document (\<open>if not user\<close>).\<close>

fun truthy :: "json \<Rightarrow> bool" where
  "truthy JNull = False"
| "truthy (JBool b) = b"
| "truthy (JNum n) = (n \<noteq> 0)"
| "truthy (JFloat x) = (x \<noteq> 0)"
| "truthy (JStr s) = (s \<noteq> [])"
| "truthy (JArr xs) = (xs \<noteq> [])"
| "truthy (JObj kvs) = (kvs \<noteq> [])"

text \<open>
  A text that travels on the wire or lies in the cache is either the serialisation of a
  JSON document (\<open>json.dumps\<close> of it, never the empty string) or a text that does not
  parse as JSON. \<open>json.loads\<close> raises on the latter.
\<close>

datatype wire = Encoded json | Plain string

text \<open>
  The exceptions the gateway meets. \<open>TimeoutException\<close> stands for httpx's timeouts,
  \<open>RequestError\<close> for every other \<open>httpx.RequestError\<close> (connection refused, DNS
  failure, ...); in httpx the former is a subclass of the latter. \<open>RedisError\<close> is any
  error of the Redis client, \<open>OtherException\<close> any exception not named here. Where the
  code reads the text \<open>str(e)\<close> of an exception, the text travels beside it.
\<close>

datatype exn =
    ValueError
  | KeyError
  | AttributeError
  | JSONDecodeError
  | RedisError
  | TimeoutException
  | RequestError
  | OtherException
  | HTTPException int string

definition json_dumps :: "json \<Rightarrow> wire" where
  "json_dumps j = Encoded j"

fun json_loads :: "wire \<Rightarrow> exn + json" where
  "json_loads (Encoded j) = Inr j"
| "json_loads (Plain s) = Inl JSONDecodeError"

fun wire_truthy :: "wire \<Rightarrow> bool" where
  "wire_truthy (Encoded j) = True"
| "wire_truthy (Plain s) = (s \<noteq> [])"

text \<open>
  \<open>str.replace(old, new)\<close>: the occurrences of \<open>old\<close> are found from the left and do
  not overlap; the scan continues after each replaced occurrence. With an empty \<open>old\<close>
  Python puts \<open>new\<close> before every character and at the end.
\<close>

function str_replace_scan :: "string \<Rightarrow> string \<Rightarrow> string \<Rightarrow> string" where
  "str_replace_scan old new [] = []"
| "str_replace_scan old new (c # cs) =
     (if old \<noteq> [] \<and> prefix old (c # cs)
      then new @ str_replace_scan old new (drop (length old) (c # cs))
      else c # str_replace_scan old new cs)"
  by pat_completeness auto
termination
  by (relation "measure (\<lambda>(old, new, s). length s)") auto

definition str_replace :: "string \<Rightarrow> string \<Rightarrow> string \<Rightarrow> string" where
  "str_replace old new s =
     (if old = [] then new @ concat (map (\<lambda>c. c # new) s)
      else str_replace_scan old new s)"

text \<open>\<open>list.remove(x)\<close> removes the first element equal to \<open>x\<close> and raises ValueError when
  there is none.\<close>

definition list_remove :: "'a \<Rightarrow> 'a list \<Rightarrow> exn + 'a list" where
  "list_remove x xs = (if x \<in> set xs then Inr (remove1 x xs) else Inl ValueError)"

subsection \<open>ConnectionManager\<close>

text \<open>A WebSocket object is compared by identity; the model names it by a number.\<close>

type_synonym websocket = nat

record connection_manager =
  active_connections :: "websocket list"

definition manager_init :: connection_manager where
  "manager_init = \<lparr> active_connections = [] \<rparr>"

text \<open>\<open>connect\<close>: the handshake (\<open>accept\<close>) may raise; the socket is appended after it.\<close>

definition connect :: "(websocket \<Rightarrow> bool) \<Rightarrow> websocket \<Rightarrow> connection_manager
    \<Rightarrow> exn + connection_manager" where
  "connect accepts ws m =
     (if accepts ws
      then Inr (m\<lparr> active_connections := active_connections m @ [ws] \<rparr>)
      else Inl OtherException)"

definition disconnect :: "websocket \<Rightarrow> connection_manager \<Rightarrow> exn + connection_manager" where
  "disconnect ws m =
     (case list_remove ws (active_connections m) of
        Inl e \<Rightarrow> Inl e
      | Inr xs \<Rightarrow> Inr (m\<lparr> active_connections := xs \<rparr>))"

text \<open>
  \<open>broadcast\<close>: Python's \<open>for connection in self.active_connections\<close> reads the list
  through an index that advances by one each round and stops when the index reaches
  the list's current length; the body removes from the same list.
  \<open>send_ok c msg\<close> says whether \<open>c.send_text(msg)\<close> returns (it raises otherwise);
  the loop returns the list it leaves and the sockets the message was written to.
\<close>

function broadcast_loop :: "(websocket \<Rightarrow> string \<Rightarrow> bool) \<Rightarrow> string \<Rightarrow> nat
    \<Rightarrow> websocket list \<Rightarrow> websocket list \<Rightarrow> exn + (websocket list \<times> websocket list)" where
  "broadcast_loop send_ok msg i conns delivered =
     (if i < length conns then
        (if send_ok (conns ! i) msg
         then broadcast_loop send_ok msg (i + 1) conns (delivered @ [conns ! i])
         else (case list_remove (conns ! i) conns of
                 Inl e \<Rightarrow> Inl e
               | Inr conns' \<Rightarrow> broadcast_loop send_ok msg (i + 1) conns' delivered))
      else Inr (conns, delivered))"
  by pat_completeness auto
termination
  by (relation "measure (\<lambda>(send_ok, msg, i, conns, delivered). length conns - i)")
     (auto simp: list_remove_def length_remove1 split: if_splits)

declare broadcast_loop.simps [simp del]

definition broadcast :: "(websocket \<Rightarrow> string \<Rightarrow> bool) \<Rightarrow> string \<Rightarrow> connection_manager
    \<Rightarrow> exn + (connection_manager \<times> websocket list)" where
  "broadcast send_ok msg m =
     (case broadcast_loop send_ok msg 0 (active_connections m) [] of
        Inl e \<Rightarrow> Inl e
      | Inr (conns, delivered) \<Rightarrow> Inr (m\<lparr> active_connections := conns \<rparr>, delivered))"

subsection \<open>The world: Redis, its clock, and the calls issued to the backends\<close>

type_synonym time = int

text \<open>
  A Redis value is a string. The model keeps apart the strings that are decimal integers
  (the counters that INCR creates and reads) and all other texts. A key holds a value and,
  when one was set, the time at which it expires.
\<close>

datatype rvalue = Counter int | Blob wire

record http_call =
  call_method :: string
  call_url :: string
  call_headers :: "string \<rightharpoonup> string"
  call_params :: "(string \<times> string) list"
  call_content :: "string option"
  call_timeout :: real

record http_response =
  status_code :: int
  resp_headers :: "string \<rightharpoonup> string"
  resp_body :: wire
  elapsed :: real

text \<open>The backends: what a call issued at a given time comes back with: a response
  (\<open>elapsed\<close> is \<open>response.elapsed.total_seconds()\<close>), or the exception that httpx raises
  together with its text \<open>str(e)\<close>.\<close>

type_synonym backends = "time \<Rightarrow> http_call \<Rightarrow> (exn \<times> string) + http_response"

record world =
  clock :: time
  redis_up :: bool
  redis_db :: "string \<rightharpoonup> (rvalue \<times> time option)"
  issued :: "http_call list"

text \<open>The value a key holds now: a key whose expiry time has come is gone.\<close>

definition redis_lookup :: "world \<Rightarrow> string \<Rightarrow> (rvalue \<times> time option) option" where
  "redis_lookup w k =
     (case redis_db w k of
        None \<Rightarrow> None
      | Some (v, None) \<Rightarrow> Some (v, None)
      | Some (v, Some t) \<Rightarrow> if clock w < t then Some (v, Some t) else None)"

text \<open>
  INCR: an absent key counts from 0 and gets no expiry; an existing counter keeps its
  expiry; a value that is not an integer, or a counter at the largest signed 64-bit
  integer, is an error and the key is left as it is. INCR and EXPIRE are the commands of
  the rate limiter's pipeline: whether Redis can be reached is decided where the
  pipeline is executed, in \<open>is_allowed\<close>.
\<close>

definition redis_incr :: "string \<Rightarrow> world \<Rightarrow> (exn + int) \<times> world" where
  "redis_incr k w =
     (case redis_lookup w k of
        None \<Rightarrow> (Inr 1, w\<lparr> redis_db := (redis_db w)(k \<mapsto> (Counter 1, None)) \<rparr>)
      | Some (Counter n, t) \<Rightarrow>
          if n \<ge> 9223372036854775807 then (Inl RedisError, w)
          else (Inr (n + 1), w\<lparr> redis_db := (redis_db w)(k \<mapsto> (Counter (n + 1), t)) \<rparr>)
      | Some (Blob b, t) \<Rightarrow> (Inl RedisError, w))"

text \<open>EXPIRE: sets the expiry of an existing key to now plus the seconds given; a
  timeout that is not positive deletes the key.\<close>

definition redis_expire :: "string \<Rightarrow> int \<Rightarrow> world \<Rightarrow> (exn + bool) \<times> world" where
  "redis_expire k secs w =
     (case redis_lookup w k of
        None \<Rightarrow> (Inr False, w)
      | Some (v, t) \<Rightarrow>
          if secs \<le> 0 then (Inr True, w\<lparr> redis_db := (redis_db w)(k := None) \<rparr>)
          else (Inr True, w\<lparr> redis_db := (redis_db w)(k \<mapsto> (v, Some (clock w + secs))) \<rparr>))"

text \<open>GET (with \<open>decode_responses=True\<close>): the string under the key, or None. A counter
  reads as its decimal text, which is the JSON document of that number.\<close>

definition redis_get :: "string \<Rightarrow> world \<Rightarrow> (exn + wire option) \<times> world" where
  "redis_get k w =
     (if \<not> redis_up w then (Inl RedisError, w)
      else (case redis_lookup w k of
              None \<Rightarrow> (Inr None, w)
            | Some (Counter n, t) \<Rightarrow> (Inr (Some (Encoded (JNum n))), w)
            | Some (Blob b, t) \<Rightarrow> (Inr (Some b), w)))"

text \<open>SETEX: stores the value with an expiry of now plus the seconds given; Redis
  refuses a time that is not positive.\<close>

definition redis_setex :: "string \<Rightarrow> int \<Rightarrow> wire \<Rightarrow> world \<Rightarrow> (exn + bool) \<times> world" where
  "redis_setex k secs v w =
     (if \<not> redis_up w then (Inl RedisError, w)
      else if secs \<le> 0 then (Inl RedisError, w)
      else (Inr True, w\<lparr> redis_db := (redis_db w)(k \<mapsto> (Blob v, Some (clock w + secs))) \<rparr>))"

subsection \<open>RateLimiter\<close>

record rate_limiter_cfg =
  max_requests :: int
  window :: int

text \<open>\<open>rate_limiter = RateLimiter(redis_client)\<close>: 100 requests, 3600 seconds.\<close>

definition rate_limiter :: rate_limiter_cfg where
  "rate_limiter = \<lparr> max_requests = 100, window = 3600 \<rparr>"

text \<open>
  \<open>is_allowed\<close>: INCR and EXPIRE are queued in one pipeline (a MULTI/EXEC transaction)
  and sent by \<open>execute\<close>. When Redis cannot be reached nothing runs and \<open>execute\<close>
  raises. Otherwise both commands run; when one of them answers with an error,
  \<open>execute\<close> raises it after the transaction has run.
\<close>

definition is_allowed :: "rate_limiter_cfg \<Rightarrow> string \<Rightarrow> world \<Rightarrow> (exn + bool) \<times> world" where
  "is_allowed rl identifier w =
     (let key = ''rate_limit:'' @ identifier in
      if \<not> redis_up w then (Inl RedisError, w)
      else (case redis_incr key w of
              (r0, w1) \<Rightarrow>
                (case redis_expire key (window rl) w1 of
                   (r1, w2) \<Rightarrow>
                     (case r0 of
                        Inl e \<Rightarrow> (Inl e, w2)
                      | Inr current_requests \<Rightarrow>
                          (case r1 of
                             Inl e \<Rightarrow> (Inl e, w2)
                           | Inr b \<Rightarrow> (Inr (current_requests \<le> max_requests rl), w2))))))"

subsection \<open>Requests, responses and the service table\<close>

text \<open>
  Header names are case-insensitive on the wire: the header objects of Starlette and
  httpx are modelled as maps keyed by the lower-case name, a plain Python \<open>dict\<close> as a
  map keyed by the name as the source writes it.
\<close>

record request =
  req_method :: string
  req_path :: string
  req_headers :: "string \<rightharpoonup> string"
  req_query :: "(string \<times> string) list"
  req_body :: string
  client_host :: string
  state_request_id :: "string option"

text \<open>The content handed to \<open>JSONResponse\<close>: a decoded document, or a text (\<open>response.text\<close>).\<close>

datatype content = Structured json | Opaque wire

record response =
  status :: int
  headers :: "string \<rightharpoonup> string"
  body :: content

text \<open>What the surroundings hand to one request: the UUID drawn for it, the elapsed time
  as printed, and the printed UTC time.\<close>

record env =
  fresh_uuid :: string
  process_time :: string
  utc_now :: string

definition SERVICES :: "(string \<times> string) list" where
  "SERVICES =
     [(''auth'', ''http://auth-service:8001''),
      (''clients'', ''http://clients-pets-service:8002''),
      (''appointments'', ''http://appointments-service:8003''),
      (''medical'', ''http://medical-records-service:8004''),
      (''billing'', ''http://billing-service:8005''),
      (''notifications'', ''http://notifications-service:8006''),
      (''employees'', ''http://employees-service:8007'')]"

text \<open>A call through an \<open>httpx.AsyncClient\<close>: it is logged, and the backends answer.\<close>

definition send_call :: "backends \<Rightarrow> http_call \<Rightarrow> world
    \<Rightarrow> ((exn \<times> string) + http_response) \<times> world" where
  "send_call net c w = (net (clock w) c, w\<lparr> issued := issued w @ [c] \<rparr>)"

text \<open>\<open>d[k] = v\<close> on a Python dictionary, which keeps the order of insertion.\<close>

definition dict_set :: "string \<Rightarrow> 'v \<Rightarrow> (string \<times> 'v) list \<Rightarrow> (string \<times> 'v) list" where
  "dict_set k v d =
     (if k \<in> fst ` set d then map (\<lambda>(k', v'). if k' = k then (k', v) else (k', v')) d
      else d @ [(k, v)])"

subsection \<open>Token verification\<close>

text \<open>The request sent to the authentication service: \<open>GET <auth>/verify-token\<close> with
  the header \<open>Authorization: Bearer <token>\<close>.\<close>

definition verify_call :: "string \<Rightarrow> string \<Rightarrow> http_call" where
  "verify_call url token =
     \<lparr> call_method = ''GET'', call_url = url @ ''/verify-token'',
       call_headers = [''Authorization'' \<mapsto> ''Bearer '' @ token],
       call_params = [], call_content = None, call_timeout = 5 \<rparr>"

text \<open>Lines 83 to 94 of \<open>verify_token\<close>: the call to the authentication service after a
  cache miss. Every exception ends in the handler of \<open>verify_token\<close>, which logs it and
  lets the function return None.\<close>

definition verify_upstream :: "backends \<Rightarrow> string \<Rightarrow> world \<Rightarrow> json \<times> world" where
  "verify_upstream net token w =
     (case map_of SERVICES ''auth'' of
        None \<Rightarrow> (JNull, w)
      | Some url \<Rightarrow>
          (case send_call net (verify_call url token) w of
             (Inl e, w1) \<Rightarrow> (JNull, w1)
           | (Inr response, w1) \<Rightarrow>
               if status_code response = 200 then
                 (case json_loads (resp_body response) of
                    Inl e \<Rightarrow> (JNull, w1)
                  | Inr user_data \<Rightarrow>
                      (case redis_setex (''token:'' @ token) 600 (json_dumps user_data) w1 of
                         (Inl e, w2) \<Rightarrow> (JNull, w2)
                       | (Inr ok, w2) \<Rightarrow> (user_data, w2)))
               else (JNull, w1)))"

text \<open>\<open>verify_token\<close>; Python's None is \<open>JNull\<close>.\<close>

definition verify_token :: "backends \<Rightarrow> request \<Rightarrow> world \<Rightarrow> json \<times> world" where
  "verify_token net request w =
     (case req_headers request ''authorization'' of
        None \<Rightarrow> (JNull, w)
      | Some header \<Rightarrow>
          if header = [] then (JNull, w)
          else
            (let token = str_replace ''Bearer '' [] header in
             case redis_get (''token:'' @ token) w of
               (Inl e, w1) \<Rightarrow> (JNull, w1)
             | (Inr None, w1) \<Rightarrow> verify_upstream net token w1
             | (Inr (Some cached_user), w1) \<Rightarrow>
                 if wire_truthy cached_user then
                   (case json_loads cached_user of
                      Inl e \<Rightarrow> (JNull, w1)
                    | Inr user \<Rightarrow> (user, w1))
                 else verify_upstream net token w1))"

definition get_current_user :: "backends \<Rightarrow> request \<Rightarrow> world \<Rightarrow> (exn + json) \<times> world" where
  "get_current_user net request w =
     (case verify_token net request w of
        (user, w1) \<Rightarrow>
          if \<not> truthy user
          then (Inl (HTTPException 401
                       (''Token inv'' @ [CHR 0xC3, CHR 0xA1] @ ''lido o expirado'')), w1)
          else (Inr user, w1))"

subsection \<open>Health check\<close>

text \<open>One round of the loop over \<open>SERVICES.items()\<close>: the probe of one backend and its
  entry in \<open>services_health\<close>; \<open>response_time\<close> is the float
  \<open>response.elapsed.total_seconds()\<close>, \<open>error\<close> is \<open>str(e)\<close> of the exception caught.\<close>

definition probe_entry :: "(exn \<times> string) + http_response \<Rightarrow> json" where
  "probe_entry r =
     (case r of
        Inr response \<Rightarrow>
          JObj [(''status'', JStr (if status_code response = 200 then ''healthy'' else ''unhealthy'')),
                (''response_time'', JFloat (elapsed response)),
                (''status_code'', JNum (status_code response))]
      | Inl (e, str_e) \<Rightarrow>
          JObj [(''status'', JStr ''unhealthy''), (''error'', JStr str_e)])"

definition health_call :: "string \<Rightarrow> http_call" where
  "health_call url =
     \<lparr> call_method = ''GET'', call_url = url @ ''/health'', call_headers = Map.empty,
       call_params = [], call_content = None, call_timeout = 5 \<rparr>"

fun health_loop :: "backends \<Rightarrow> (string \<times> string) list \<Rightarrow> (string \<times> json) list \<Rightarrow> world
    \<Rightarrow> (string \<times> json) list \<times> world" where
  "health_loop net [] services_health w = (services_health, w)"
| "health_loop net ((name, url) # rest) services_health w =
     (case send_call net (health_call url) w of
        (r, w1) \<Rightarrow> health_loop net rest (dict_set name (probe_entry r) services_health) w1)"

text \<open>\<open>s["status"] == "healthy"\<close> on one entry.\<close>

fun entry_healthy :: "json \<Rightarrow> bool" where
  "entry_healthy (JObj kvs) = (map_of kvs ''status'' = Some (JStr ''healthy''))"
| "entry_healthy j = False"

definition health_check :: "env \<Rightarrow> backends \<Rightarrow> world \<Rightarrow> json \<times> world" where
  "health_check e net w =
     (case health_loop net SERVICES [] w of
        (services_health, w1) \<Rightarrow>
          (let all_healthy = list_all (\<lambda>(name, s). entry_healthy s) services_health in
           (JObj [(''status'', JStr (if all_healthy then ''healthy'' else ''degraded'')),
                  (''timestamp'', JStr (utc_now e)),
                  (''services'', JObj services_health)], w1)))"

subsection \<open>The HTTP middleware\<close>

definition JSONResponse :: "int \<Rightarrow> content \<Rightarrow> (string \<rightharpoonup> string) \<Rightarrow> response" where
  "JSONResponse code c hs = \<lparr> status = code, headers = hs, body = c \<rparr>"

text \<open>
  \<open>logging_and_rate_limit_middleware\<close>. \<open>call_next\<close> is the rest of the application; an
  exception that escapes it, or the rate limiter, escapes the middleware (the server
  then answers 500 on its own).
\<close>

definition identifier_of :: "request \<Rightarrow> string" where
  "identifier_of request =
     (let client_ip = client_host request;
          user_agent = (case req_headers request ''user-agent'' of
                          None \<Rightarrow> ''unknown'' | Some ua \<Rightarrow> ua)
      in client_ip @ '':'' @ user_agent)"

definition logging_and_rate_limit_middleware ::
    "env \<Rightarrow> request \<Rightarrow> (request \<Rightarrow> world \<Rightarrow> (exn + response) \<times> world) \<Rightarrow> world
     \<Rightarrow> (exn + response) \<times> world" where
  "logging_and_rate_limit_middleware e request call_next w =
     (let identifier = identifier_of request
      in case is_allowed rate_limiter identifier w of
           (Inl ex, w1) \<Rightarrow> (Inl ex, w1)
         | (Inr False, w1) \<Rightarrow>
             (Inr (JSONResponse 429
                     (Structured (JObj [(''detail'', JStr ''Rate limit exceeded'')])) Map.empty), w1)
         | (Inr True, w1) \<Rightarrow>
             (let request_id = fresh_uuid e in
              case call_next (request\<lparr> state_request_id := Some request_id \<rparr>) w1 of
                (Inl ex, w2) \<Rightarrow> (Inl ex, w2)
              | (Inr resp, w2) \<Rightarrow>
                  (Inr (resp\<lparr> headers := (headers resp)
                                  (''x-request-id'' \<mapsto> request_id,
                                   ''x-process-time'' \<mapsto> process_time e) \<rparr>), w2)))"

subsection \<open>The proxy\<close>

text \<open>The two \<open>except\<close> clauses of \<open>proxy_request\<close>, in their order; any other exception
  passes through.\<close>

definition proxy_except :: "string \<Rightarrow> exn \<Rightarrow> exn" where
  "proxy_except service_name ex =
     (case ex of
        TimeoutException \<Rightarrow> HTTPException 504 (''Timeout calling '' @ service_name)
      | RequestError \<Rightarrow> HTTPException 503 (''Service '' @ service_name @ '' unavailable'')
      | _ \<Rightarrow> ex)"

text \<open>The request that \<open>proxy_request\<close> sends on: the caller's method, headers (with the
  request id and the caller's address added), query and, for POST, PUT and PATCH, body.\<close>

definition proxy_call :: "string \<Rightarrow> string \<Rightarrow> request \<Rightarrow> string \<Rightarrow> http_call" where
  "proxy_call service_url path request rid =
     (let target_url = service_url @ path;
          hs = (req_headers request)
                 (''X-Request-ID'' \<mapsto> rid, ''X-Forwarded-For'' \<mapsto> client_host request);
          content = (if req_method request \<in> set [''POST'', ''PUT'', ''PATCH'']
                     then Some (req_body request) else None)
      in \<lparr> call_method = req_method request, call_url = target_url,
           call_headers = hs, call_params = req_query request,
           call_content = content, call_timeout = 30 \<rparr>)"

definition proxy_request :: "backends \<Rightarrow> string \<Rightarrow> string \<Rightarrow> request \<Rightarrow> world
    \<Rightarrow> (exn + response) \<times> world" where
  "proxy_request net service_name path request w =
     (case map_of SERVICES service_name of
        None \<Rightarrow> (Inl (HTTPException 404 (''Service '' @ service_name @ '' not found'')), w)
      | Some service_url \<Rightarrow>
          (case state_request_id request of
             None \<Rightarrow> (Inl AttributeError, w)
           | Some rid \<Rightarrow>
               (case send_call net (proxy_call service_url path request rid) w of
                  (Inl (ex, str_ex), w1) \<Rightarrow> (Inl (proxy_except service_name ex), w1)
                | (Inr upstream, w1) \<Rightarrow>
                    (let response_headers =
                           (resp_headers upstream)
                             (''content-encoding'' := None, ''transfer-encoding'' := None);
                         ctype = (case resp_headers upstream ''content-type'' of
                                    None \<Rightarrow> [] | Some t \<Rightarrow> t)
                     in if prefix ''application/json'' ctype then
                          (case json_loads (resp_body upstream) of
                             Inl ex \<Rightarrow> (Inl (proxy_except service_name ex), w1)
                           | Inr j \<Rightarrow>
                               (Inr (JSONResponse (status_code upstream) (Structured j)
                                       response_headers), w1))
                        else (Inr (JSONResponse (status_code upstream)
                                     (Opaque (resp_body upstream)) response_headers), w1)))))"

subsection \<open>Dashboard summary\<close>

text \<open>One of the three steps inside the \<open>try\<close> of \<open>dashboard_summary\<close>: the GET with the
  caller's Authorization header (httpx refuses a header whose value is None), and the
  field set on status 200.\<close>

definition dashboard_call :: "string \<Rightarrow> string \<Rightarrow> string \<Rightarrow> http_call" where
  "dashboard_call url path auth =
     \<lparr> call_method = ''GET'', call_url = url @ path,
       call_headers = [''Authorization'' \<mapsto> auth],
       call_params = [], call_content = None, call_timeout = 10 \<rparr>"

definition dashboard_part :: "backends \<Rightarrow> request \<Rightarrow> string \<Rightarrow> string \<Rightarrow> string
    \<Rightarrow> (string \<times> json) list \<Rightarrow> world \<Rightarrow> (exn + (string \<times> json) list) \<times> world" where
  "dashboard_part net request service path field summary w =
     (case map_of SERVICES service of
        None \<Rightarrow> (Inl KeyError, w)
      | Some url \<Rightarrow>
          (case req_headers request ''authorization'' of
             None \<Rightarrow> (Inl OtherException, w)
           | Some auth \<Rightarrow>
               (case send_call net (dashboard_call url path auth) w of
                  (Inl (ex, str_ex), w1) \<Rightarrow> (Inl ex, w1)
                | (Inr r, w1) \<Rightarrow>
                    if status_code r = 200 then
                      (case json_loads (resp_body r) of
                         Inl ex \<Rightarrow> (Inl ex, w1)
                       | Inr j \<Rightarrow> (Inr (dict_set field j summary), w1))
                    else (Inr summary, w1))))"

text \<open>The handler of the \<open>try\<close>: the summary as it stands gets the key \<open>error\<close>.\<close>

definition dashboard_except :: "(string \<times> json) list \<Rightarrow> (string \<times> json) list" where
  "dashboard_except summary =
     dict_set ''error'' (JStr ''Error fetching some dashboard data'') summary"

definition dashboard_summary :: "backends \<Rightarrow> request \<Rightarrow> world \<Rightarrow> (string \<times> json) list \<times> world" where
  "dashboard_summary net request w =
     (case dashboard_part net request ''appointments'' ''/today'' ''todays_appointments'' [] w of
        (Inl ex, w1) \<Rightarrow> (dashboard_except [], w1)
      | (Inr s1, w1) \<Rightarrow>
          (case dashboard_part net request ''billing'' ''/pending'' ''pending_invoices'' s1 w1 of
             (Inl ex, w2) \<Rightarrow> (dashboard_except s1, w2)
           | (Inr s2, w2) \<Rightarrow>
               (case dashboard_part net request ''notifications'' ''/pending''
                       ''pending_notifications'' s2 w2 of
                  (Inl ex, w3) \<Rightarrow> (dashboard_except s2, w3)
                | (Inr s3, w3) \<Rightarrow> (s3, w3))))"

subsection \<open>Routes and the application\<close>

text \<open>
  FastAPI turns an \<open>HTTPException\<close> raised by a route (or by its dependency) into a JSON
  response with that status and \<open>{"detail": ...}\<close>, and a returned dictionary into a
  JSON response with status 200. This happens inside \<open>call_next\<close>. TrustedHostMiddleware
  (which allows every host) and CORSMiddleware are left out, and with the latter its
  own answer to a preflight \<open>OPTIONS\<close> request; so is Starlette's redirect of a path that
  differs from a route by a trailing slash.
\<close>

definition http_exception_handler :: "(exn + response) \<times> world \<Rightarrow> (exn + response) \<times> world" where
  "http_exception_handler r =
     (case r of
        (Inl (HTTPException code detail), w) \<Rightarrow>
          (Inr (JSONResponse code (Structured (JObj [(''detail'', JStr detail)])) Map.empty), w)
      | (x, w) \<Rightarrow> (x, w))"

definition returned :: "json \<times> world \<Rightarrow> (exn + response) \<times> world" where
  "returned r = (case r of (j, w) \<Rightarrow> (Inr (JSONResponse 200 (Structured j) Map.empty), w))"

text \<open>A route with \<open>user=Depends(get_current_user)\<close>: the dependency runs first.\<close>

definition depends_user :: "backends \<Rightarrow> request \<Rightarrow> (world \<Rightarrow> (exn + response) \<times> world) \<Rightarrow> world
    \<Rightarrow> (exn + response) \<times> world" where
  "depends_user net request handler w =
     (case get_current_user net request w of
        (Inl ex, w1) \<Rightarrow> (Inl ex, w1)
      | (Inr user, w1) \<Rightarrow> handler w1)"

text \<open>The six routes \<open>/<service>/{path:path}\<close>, in the order they are declared.\<close>

definition protected_services :: "string list" where
  "protected_services =
     [''clients'', ''appointments'', ''medical'', ''billing'', ''notifications'', ''employees'']"

fun match_protected :: "string list \<Rightarrow> string \<Rightarrow> (string \<times> string) option" where
  "match_protected [] p = None"
| "match_protected (s # ss) p =
     (if prefix (''/'' @ s @ ''/'') p then Some (s, drop (length s + 2) p)
      else match_protected ss p)"

definition not_found :: "world \<Rightarrow> (exn + response) \<times> world" where
  "not_found w = (Inl (HTTPException 404 ''Not Found''), w)"

definition method_not_allowed :: "world \<Rightarrow> (exn + response) \<times> world" where
  "method_not_allowed w = (Inl (HTTPException 405 ''Method Not Allowed''), w)"

definition router :: "env \<Rightarrow> backends \<Rightarrow> request \<Rightarrow> world \<Rightarrow> (exn + response) \<times> world" where
  "router e net request w =
     http_exception_handler
       (let m = req_method request; p = req_path request in
        if p = ''/health'' then
          (if m = ''GET'' then returned (health_check e net w) else method_not_allowed w)
        else if p \<in> set [''/auth/login'', ''/auth/register'', ''/auth/refresh'',
                          ''/auth/forgot-password''] then
          (if m = ''POST'' then proxy_request net ''auth'' (drop 5 p) request w
           else method_not_allowed w)
        else if p = ''/dashboard/summary'' then
          (if m = ''GET''
           then depends_user net request
                  (\<lambda>w1. case dashboard_summary net request w1 of
                           (summary, w2) \<Rightarrow> returned (JObj summary, w2)) w
           else method_not_allowed w)
        else
          (case match_protected protected_services p of
             Some (service, path) \<Rightarrow>
               if m \<in> set [''GET'', ''POST'', ''PUT'', ''DELETE'']
               then depends_user net request
                      (proxy_request net service (''/'' @ path) request) w
               else method_not_allowed w
           | None \<Rightarrow> not_found w))"

text \<open>The application: the middleware around the routes.\<close>

definition app :: "env \<Rightarrow> backends \<Rightarrow> request \<Rightarrow> world \<Rightarrow> (exn + response) \<times> world" where
  "app e net request w = logging_and_rate_limit_middleware e request (router e net) w"

subsection \<open>Runs of the gateway over time\<close>

text \<open>The world when the clock shows \<open>t\<close>: time passes between two calls, never inside one.\<close>

definition at_time :: "time \<Rightarrow> world \<Rightarrow> world" where
  "at_time t w = w\<lparr> clock := t \<rparr>"

text \<open>The rate limiter asked for one identifier at each of the given times, in turn: the
  answers, and the world left behind.\<close>

fun allow_trace :: "rate_limiter_cfg \<Rightarrow> string \<Rightarrow> time list \<Rightarrow> world
    \<Rightarrow> (exn + bool) list \<times> world" where
  "allow_trace rl ident [] w = ([], w)"
| "allow_trace rl ident (t # ts) w =
     (case is_allowed rl ident (at_time t w) of
        (r, w1) \<Rightarrow> (case allow_trace rl ident ts w1 of (rs, w2) \<Rightarrow> (r # rs, w2)))"

text \<open>A world with nothing in Redis and no call issued yet.\<close>

definition world_init :: world where
  "world_init = \<lparr> clock = 0, redis_up = True, redis_db = Map.empty, issued = [] \<rparr>"

text \<open>Sample surroundings for the closed examples: a request carrying a bearer token, the
  per-request values, a world in which the sender's counter has reached the limit, and
  some backends.\<close>

definition sample_request :: "string \<Rightarrow> string \<Rightarrow> string \<Rightarrow> request" where
  "sample_request m p auth =
     \<lparr> req_method = m, req_path = p,
       req_headers = [''authorization'' \<mapsto> auth, ''user-agent'' \<mapsto> ''curl''],
       req_query = [], req_body = [], client_host = ''10.0.0.7'',
       state_request_id = None \<rparr>"

definition sample_env :: env where
  "sample_env = \<lparr> fresh_uuid = ''uuid-1'', process_time = ''0.01'',
                   utc_now = ''2024-01-01T00:00:00'' \<rparr>"

definition world_at_limit :: world where
  "world_at_limit =
     world_init\<lparr> redis_db := [''rate_limit:10.0.0.7:curl'' \<mapsto> (Counter 100, Some 3600)] \<rparr>"

definition world_redis_down :: world where
  "world_redis_down = world_init\<lparr> redis_up := False \<rparr>"

definition sample_user :: json where
  "sample_user = JObj [(''user_id'', JNum 1), (''username'', JStr ''ana'')]"

definition ok_response :: "json \<Rightarrow> http_response" where
  "ok_response j =
     \<lparr> status_code = 200, resp_headers = [''content-type'' \<mapsto> ''application/json''],
       resp_body = Encoded j, elapsed = 0 \<rparr>"

definition denied_response :: http_response where
  "denied_response =
     \<lparr> status_code = 401, resp_headers = [''content-type'' \<mapsto> ''application/json''],
       resp_body = Encoded (JObj [(''detail'', JStr ''Invalid token'')]), elapsed = 0 \<rparr>"

text \<open>Backends that answer every call with 200; an authentication service that accepts
  the token until the time \<open>T\<close> at which it expires; backends whose appointments
  service, or whose notifications service, refuses the connection.\<close>

definition all_up :: backends where
  "all_up = (\<lambda>t c. Inr (ok_response sample_user))"

definition auth_valid_until :: "time \<Rightarrow> backends" where
  "auth_valid_until T = (\<lambda>t c. if t < T then Inr (ok_response sample_user) else Inr denied_response)"

definition appointments_down :: backends where
  "appointments_down =
     (\<lambda>t c. if call_url c = ''http://appointments-service:8003/today''
             then Inl (RequestError, ''All connection attempts failed'')
             else Inr (ok_response (JArr [])))"

definition notifications_down :: backends where
  "notifications_down =
     (\<lambda>t c. if call_url c = ''http://notifications-service:8006/pending''
             then Inl (RequestError, ''All connection attempts failed'')
             else Inr (ok_response (JArr [])))"

text \<open>Backends on which every call times out, and backends that refuse every
  connection.\<close>

definition timing_out :: backends where
  "timing_out = (\<lambda>t c. Inl (TimeoutException, []))"

definition refusing :: backends where
  "refusing = (\<lambda>t c. Inl (RequestError, ''All connection attempts failed''))"

text \<open>The probe of the backend at \<open>url\<close>, sent at time \<open>t\<close>, comes back with status 200.\<close>

definition probe_ok :: "backends \<Rightarrow> time \<Rightarrow> string \<Rightarrow> bool" where
  "probe_ok net t url =
     (case net t (health_call url) of Inr r \<Rightarrow> status_code r = 200 | Inl ex \<Rightarrow> False)"

section \<open>Properties\<close>

subsection \<open>ConnectionManager.disconnect\<close>

text \<open>
  C9, as stated (disconnect is idempotent, removing an absent connection is a no-op and
  no error), fails on the code: \<open>list.remove\<close> raises ValueError when the connection is
  not in the list. Socket 5 is not among the sockets 1, 2, 3; and a second disconnect
  of socket 1 raises where the first one succeeded.
\<close>

theorem disconnect_absent_raises:
  "disconnect 5 \<lparr> active_connections = [1, 2, 3] \<rparr> = Inl ValueError
   \<and> disconnect 1 \<lparr> active_connections = [1, 2, 3] \<rparr> = Inr \<lparr> active_connections = [2, 3] \<rparr>
   \<and> disconnect 1 \<lparr> active_connections = [2, 3] \<rparr> = Inl ValueError"
  by (simp add: disconnect_def list_remove_def)

text \<open>
  C9, amended: disconnect removes the first occurrence of a connection that is in the
  live list, and raises ValueError, changing nothing, when the connection is absent; so
  after a successful disconnect of a connection that was in the list once, a second
  disconnect of it raises.
\<close>

theorem disconnect_removes_or_raises:
  "disconnect ws m =
     (if ws \<in> set (active_connections m)
      then Inr (m\<lparr> active_connections := remove1 ws (active_connections m) \<rparr>)
      else Inl ValueError)
   \<and> (\<forall>m'. distinct (active_connections m) \<and> disconnect ws m = Inr m'
          \<longrightarrow> disconnect ws m' = Inl ValueError)"
  by (auto simp: disconnect_def list_remove_def)

theorem disconnect_removes_or_raises_witness:
  "disconnect 2 \<lparr> active_connections = [1, 2, 3] \<rparr> = Inr \<lparr> active_connections = [1, 3] \<rparr>
   \<and> disconnect 2 \<lparr> active_connections = [1, 3] \<rparr> = Inl ValueError"
  using disconnect_removes_or_raises [of 2 "\<lparr> active_connections = [1, 2, 3] \<rparr>"]
  by simp

subsection \<open>ConnectionManager.broadcast\<close>

text \<open>
  C3 (a failed write to one connection removes that connection and the message still
  reaches all the others) does not hold of the code: removing the failed connection from
  the list that the loop is reading moves its successor into the slot the loop has
  already passed. With the sockets 1, 2, 3 and the write to socket 1 failing, socket 1 is
  removed, and the message is written to socket 3 only: socket 2 is skipped.
\<close>

theorem broadcast_skips_successor_of_failed:
  "broadcast (\<lambda>c msg. c \<noteq> 1) ''hi'' \<lparr> active_connections = [1, 2, 3] \<rparr>
     = Inr (\<lparr> active_connections = [2, 3] \<rparr>, [3])"
  by (simp add: broadcast_def broadcast_loop.simps list_remove_def)

theorem broadcast_skips_successor_of_failed_witness:
  "(case broadcast (\<lambda>c msg. c \<noteq> 1) ''hi'' \<lparr> active_connections = [1, 2, 3] \<rparr> of
      Inl e \<Rightarrow> False
    | Inr (m, delivered) \<Rightarrow> 2 \<in> set (active_connections m) \<and> 2 \<notin> set delivered)"
  using broadcast_skips_successor_of_failed by simp

subsection \<open>RateLimiter.is_allowed\<close>

lemma at_time_simps [simp]:
  "redis_db (at_time t w) = redis_db w" "clock (at_time t w) = t"
  "redis_up (at_time t w) = redis_up w" "issued (at_time t w) = issued w"
  by (simp_all add: at_time_def)

lemma is_allowed_fresh:
  assumes "k = ''rate_limit:'' @ ident" "redis_up w" "0 < window rl" "redis_lookup w k = None"
  shows "is_allowed rl ident w =
     (Inr (1 \<le> max_requests rl),
      w\<lparr> redis_db := (redis_db w)(k \<mapsto> (Counter 1, Some (clock w + window rl))) \<rparr>)"
  using assms
  by (simp add: is_allowed_def redis_incr_def redis_expire_def redis_lookup_def Let_def)

lemma is_allowed_counting:
  assumes "k = ''rate_limit:'' @ ident" "redis_up w" "0 < window rl"
    "redis_db w k = Some (Counter n, Some t)" "clock w < t"
    "n < 9223372036854775807"
  shows "is_allowed rl ident w =
     (Inr (n + 1 \<le> max_requests rl),
      w\<lparr> redis_db := (redis_db w)(k \<mapsto> (Counter (n + 1), Some (clock w + window rl))) \<rparr>)"
  using assms
  by (simp add: is_allowed_def redis_incr_def redis_expire_def redis_lookup_def Let_def)

lemma upt_shift: "map f [0..<Suc n] = f 0 # map (\<lambda>i. f (Suc i)) [0..<n]"
  by (simp add: upt_conv_Cons map_Suc_upt[symmetric] del: upt_Suc)

lemma allow_trace_counting:
  assumes "k = ''rate_limit:'' @ ident" "redis_up w" "0 < window rl"
    "redis_db w k = Some (Counter n, Some (t0 + window rl))"
    "sorted (t0 # ts)" "\<forall>t \<in> set ts. t < T" "T \<le> t0 + window rl"
    "n + int (length ts) \<le> 9223372036854775807"
  shows "fst (allow_trace rl ident ts w) = map (\<lambda>i. Inr (n + 1 + int i \<le> max_requests rl)) [0..<length ts]
    \<and> redis_up (snd (allow_trace rl ident ts w))
    \<and> redis_db (snd (allow_trace rl ident ts w)) k
         = Some (Counter (n + int (length ts)), Some (last (t0 # ts) + window rl))"
  using assms
proof (induction ts arbitrary: w n t0)
  case Nil
  then show ?case by simp
next
  case (Cons t ts)
  define w1 where "w1 = (at_time t w)\<lparr> redis_db := (redis_db w)(k \<mapsto> (Counter (n + 1), Some (t + window rl))) \<rparr>"
  have t: "t0 \<le> t" "t < T" using Cons.prems by auto
  have step: "is_allowed rl ident (at_time t w) = (Inr (n + 1 \<le> max_requests rl), w1)"
    using is_allowed_counting[of k ident "at_time t w" rl n "t0 + window rl"] Cons.prems t
    by (simp add: w1_def)
  have p1: "redis_up w1" using Cons.prems by (simp add: w1_def)
  have p2: "redis_db w1 k = Some (Counter (n + 1), Some (t + window rl))" by (simp add: w1_def)
  have p3: "sorted (t # ts)" using Cons.prems by simp
  have p4: "\<forall>x \<in> set ts. x < T" using Cons.prems by simp
  have p5: "T \<le> t + window rl" using Cons.prems t by simp
  have p6: "(n + 1) + int (length ts) \<le> 9223372036854775807" using Cons.prems by simp
  note IH = Cons.IH[OF Cons.prems(1) p1 Cons.prems(3) p2 p3 p4 p5 p6]
  have tr: "allow_trace rl ident (t # ts) w =
      (Inr (n + 1 \<le> max_requests rl) # fst (allow_trace rl ident ts w1), snd (allow_trace rl ident ts w1))"
    by (simp add: step split: prod.splits)
  have m: "map (\<lambda>i. Inr (n + 1 + int i \<le> max_requests rl) :: exn + bool) [0..<length (t # ts)]
     = Inr (n + 1 \<le> max_requests rl) # map (\<lambda>i. Inr ((n + 1) + 1 + int i \<le> max_requests rl)) [0..<length ts]"
    by (simp add: upt_shift del: upt_Suc) (simp add: algebra_simps)
  show ?case
    unfolding m tr using IH by simp
qed


lemma decisions_shape:
  "Inr (1 \<le> int L) # map (\<lambda>i. Inr (1 + 1 + int i \<le> int L)) [0..<L]
     = replicate L (Inr True) @ [Inr False :: exn + bool]"
  by (rule nth_equalityI) (auto simp: nth_append nth_Cons split: nat.splits)

lemma is_allowed_decision:
  assumes "redis_up w" "redis_incr (''rate_limit:'' @ ident) w = (Inr count, w1)"
  shows "fst (is_allowed rl ident w) = Inr (count \<le> max_requests rl)"
  using assms by (simp add: is_allowed_def redis_expire_def Let_def split: option.splits prod.splits)

lemma window_run:
  assumes k: "k = ''rate_limit:'' @ ident" and up: "redis_up w" and win: "0 < window rl"
    and mx: "max_requests rl < 9223372036854775807"
    and fresh: "redis_lookup (at_time t0 w) k = None"
    and srt: "sorted (t0 # ts)" and inw: "\<forall>t\<in>set ts. t < t0 + window rl"
    and len: "int (length ts) = max_requests rl"
  shows "fst (allow_trace rl ident (t0 # ts) w) = replicate (length ts) (Inr True) @ [Inr False]"
    and "redis_up (snd (allow_trace rl ident (t0 # ts) w))"
    and "redis_db (snd (allow_trace rl ident (t0 # ts) w)) k
           = Some (Counter (1 + int (length ts)), Some (last (t0 # ts) + window rl))"
proof -
  define w1 where "w1 = (at_time t0 w)\<lparr> redis_db := (redis_db w)(k \<mapsto> (Counter 1, Some (t0 + window rl))) \<rparr>"
  have step: "is_allowed rl ident (at_time t0 w) = (Inr (1 \<le> max_requests rl), w1)"
    using is_allowed_fresh[of k ident "at_time t0 w" rl] k up win fresh by (simp add: w1_def)
  have p1: "redis_up w1" using up by (simp add: w1_def)
  have p2: "redis_db w1 k = Some (Counter 1, Some (t0 + window rl))" by (simp add: w1_def)
  have p6: "1 + int (length ts) \<le> 9223372036854775807" using mx len by simp
  note tr = allow_trace_counting[OF k p1 win p2 srt inw order_refl p6]
  have unf: "allow_trace rl ident (t0 # ts) w =
      (Inr (1 \<le> max_requests rl) # fst (allow_trace rl ident ts w1), snd (allow_trace rl ident ts w1))"
    by (simp add: step split: prod.splits)
  show "fst (allow_trace rl ident (t0 # ts) w) = replicate (length ts) (Inr True) @ [Inr False]"
    unfolding unf using tr decisions_shape[of "length ts"] len by simp
  show "redis_up (snd (allow_trace rl ident (t0 # ts) w))"
    unfolding unf using tr by simp
  show "redis_db (snd (allow_trace rl ident (t0 # ts) w)) k
           = Some (Counter (1 + int (length ts)), Some (last (t0 # ts) + window rl))"
    unfolding unf using tr by simp
qed

lemma allowed_after_window:
  assumes k: "k = ''rate_limit:'' @ ident" and up: "redis_up w" and win: "0 < window rl"
    and one: "1 \<le> max_requests rl"
    and db: "redis_db w k = Some (v, Some t)" and late: "t \<le> t'"
  shows "fst (is_allowed rl ident (at_time t' w)) = Inr True"
proof -
  have "redis_lookup (at_time t' w) k = None"
    using db late by (simp add: redis_lookup_def)
  from is_allowed_fresh[OF k _ win this] up one show ?thesis by simp
qed

text \<open>
  C6: the decision of \<open>is_allowed\<close> is \<open>count \<le> max_requests\<close> for the count that INCR
  returns. When the counter of an identifier is absent or expired at the first of
  \<open>max_requests + 1\<close> calls that all fall within one window (\<open>t0 \<le> t < t0 + window\<close>, in
  order of time), the first \<open>max_requests\<close> calls are allowed and the next one is denied;
  and a call made once a window has passed since the last of them is allowed again.
  The counter stays below the largest 64-bit integer that Redis can hold.
\<close>

theorem rate_limiter_count_window:
  "(redis_up w \<and> redis_incr (''rate_limit:'' @ ident) w = (Inr count, w1)
      \<longrightarrow> fst (is_allowed rl ident w) = Inr (count \<le> max_requests rl))
   \<and> (redis_up w \<and> 0 < window rl \<and> max_requests rl < 9223372036854775807
       \<and> redis_lookup (at_time t0 w) (''rate_limit:'' @ ident) = None
       \<and> sorted (t0 # ts) \<and> (\<forall>t\<in>set ts. t < t0 + window rl)
       \<and> int (length ts) = max_requests rl
      \<longrightarrow> fst (allow_trace rl ident (t0 # ts) w) = replicate (length ts) (Inr True) @ [Inr False]
          \<and> (\<forall>t'. 1 \<le> max_requests rl \<and> last (t0 # ts) + window rl \<le> t'
                \<longrightarrow> fst (is_allowed rl ident
                           (at_time t' (snd (allow_trace rl ident (t0 # ts) w)))) = Inr True))"
proof (intro conjI impI allI)
  assume "redis_up w \<and> redis_incr (''rate_limit:'' @ ident) w = (Inr count, w1)"
  then show "fst (is_allowed rl ident w) = Inr (count \<le> max_requests rl)"
    by (simp add: is_allowed_decision)
next
  assume h: "redis_up w \<and> 0 < window rl \<and> max_requests rl < 9223372036854775807
       \<and> redis_lookup (at_time t0 w) (''rate_limit:'' @ ident) = None
       \<and> sorted (t0 # ts) \<and> (\<forall>t\<in>set ts. t < t0 + window rl)
       \<and> int (length ts) = max_requests rl"
  then have hs: "redis_up w" "0 < window rl" "max_requests rl < 9223372036854775807"
      "redis_lookup (at_time t0 w) (''rate_limit:'' @ ident) = None"
      "sorted (t0 # ts)" "\<forall>t\<in>set ts. t < t0 + window rl" "int (length ts) = max_requests rl"
    by simp_all
  show "fst (allow_trace rl ident (t0 # ts) w) = replicate (length ts) (Inr True) @ [Inr False]"
    by (rule window_run(1)[OF refl hs])
next
  fix t'
  assume h: "redis_up w \<and> 0 < window rl \<and> max_requests rl < 9223372036854775807
       \<and> redis_lookup (at_time t0 w) (''rate_limit:'' @ ident) = None
       \<and> sorted (t0 # ts) \<and> (\<forall>t\<in>set ts. t < t0 + window rl)
       \<and> int (length ts) = max_requests rl"
    and l: "1 \<le> max_requests rl \<and> last (t0 # ts) + window rl \<le> t'"
  from h have hs: "redis_up w" "0 < window rl" "max_requests rl < 9223372036854775807"
      "redis_lookup (at_time t0 w) (''rate_limit:'' @ ident) = None"
      "sorted (t0 # ts)" "\<forall>t\<in>set ts. t < t0 + window rl" "int (length ts) = max_requests rl"
    by simp_all
  from l have ls: "1 \<le> max_requests rl" "last (t0 # ts) + window rl \<le> t'"
    by simp_all
  note up = window_run(2)[OF refl hs]
  note db = window_run(3)[OF refl hs]
  show "fst (is_allowed rl ident (at_time t' (snd (allow_trace rl ident (t0 # ts) w)))) = Inr True"
    by (rule allowed_after_window[OF refl up hs(2) ls(1) db ls(2)])
qed

theorem rate_limiter_count_window_witness:
  "fst (is_allowed rate_limiter ''a'' world_init) = Inr True
   \<and> fst (allow_trace rate_limiter ''a'' (0 # map int [1..<101]) world_init)
       = replicate 100 (Inr True) @ [Inr False]
   \<and> fst (is_allowed rate_limiter ''a''
           (at_time 3700 (snd (allow_trace rate_limiter ''a'' (0 # map int [1..<101]) world_init)))) = Inr True"
proof -
  have a: "redis_up world_init" by (simp add: world_init_def)
  have b: "redis_incr (''rate_limit:'' @ ''a'') world_init
     = (Inr 1, world_init\<lparr> redis_db := (redis_db world_init)(''rate_limit:'' @ ''a'' \<mapsto> (Counter 1, None)) \<rparr>)"
    by (simp add: world_init_def redis_incr_def redis_lookup_def)
  have c: "0 < window rate_limiter" "max_requests rate_limiter < 9223372036854775807"
       "1 \<le> max_requests rate_limiter"
    by (simp_all add: rate_limiter_def)
  have d: "redis_lookup (at_time 0 world_init) (''rate_limit:'' @ ''a'') = None"
    by (simp add: world_init_def redis_lookup_def at_time_def)
  have e: "sorted (0 # map int [1..<101])"
    by (simp add: sorted_map del: upt_Suc)
  have f: "\<forall>t\<in>set (map int [1..<101]). t < 0 + window rate_limiter"
    by (auto simp: rate_limiter_def simp del: upt_Suc)
  have g: "int (length (map int [1..<101])) = max_requests rate_limiter"
    by (simp add: rate_limiter_def)
  have l: "last (0 # map int [1..<101]) + window rate_limiter \<le> 3700"
    by (simp add: rate_limiter_def last_map del: upt_Suc)
  show ?thesis
    using rate_limiter_count_window [of world_init "''a''" 1
      "world_init\<lparr> redis_db := (redis_db world_init)(''rate_limit:'' @ ''a'' \<mapsto> (Counter 1, None)) \<rparr>"
      rate_limiter 0 "map int [1..<101]"] a b c d e f g l
    by (simp add: rate_limiter_def del: upt_Suc)
qed

subsection \<open>A Redis failure\<close>

lemma verify_token_redis_down:
  "\<not> redis_up w \<Longrightarrow> verify_token net request w = (JNull, w)"
  by (simp add: verify_token_def redis_get_def Let_def split: option.splits)

text \<open>
  C2, as stated (a failing cache operation lets the rate-limit check allow the request
  and lets token verification fall back to the authentication service), fails on the
  code. With Redis unreachable and backends that would accept every token: the rate
  limiter raises, the exception escapes the whole application, and \<open>verify_token\<close>
  returns None without a single call to the authentication service.
\<close>

theorem cache_failure_fails_request:
  "fst (is_allowed rate_limiter ''10.0.0.7:curl'' world_redis_down) = Inl RedisError
   \<and> fst (app sample_env all_up (sample_request ''GET'' ''/clients/1'' ''Bearer abc'')
            world_redis_down) = Inl RedisError
   \<and> fst (verify_token all_up (sample_request ''GET'' ''/clients/1'' ''Bearer abc'')
            world_redis_down) = JNull
   \<and> issued (snd (verify_token all_up (sample_request ''GET'' ''/clients/1'' ''Bearer abc'')
            world_redis_down)) = []"
  by (simp add: is_allowed_def app_def logging_and_rate_limit_middleware_def
        world_redis_down_def world_init_def verify_token_redis_down)

text \<open>
  C2, amended: when Redis cannot be reached, \<open>is_allowed\<close> raises the Redis error (the
  request is neither allowed nor answered with 429: the error escapes the middleware and
  no route runs), and \<open>verify_token\<close> returns None without calling the authentication
  service, so that \<open>get_current_user\<close> raises HTTP 401. The world is left as it was.
  Where the cache fails only at the write that follows a successful answer of the
  authentication service, the answer is dropped and the result is None as well.
\<close>

theorem cache_failure_propagates:
  "\<not> redis_up w \<Longrightarrow>
     is_allowed rl ident w = (Inl RedisError, w)
   \<and> logging_and_rate_limit_middleware e request call_next w = (Inl RedisError, w)
   \<and> verify_token net request w = (JNull, w)
   \<and> get_current_user net request w
       = (Inl (HTTPException 401 (''Token inv'' @ [CHR 0xC3, CHR 0xA1] @ ''lido o expirado'')), w)
   \<and> fst (verify_upstream net token w) = JNull"
  by (simp add: is_allowed_def logging_and_rate_limit_middleware_def get_current_user_def
        verify_token_redis_down verify_upstream_def redis_setex_def send_call_def
      split: option.splits sum.splits prod.splits)

theorem cache_failure_propagates_witness:
  "\<not> redis_up world_redis_down
   \<and> is_allowed rate_limiter ''10.0.0.7:curl'' world_redis_down = (Inl RedisError, world_redis_down)
   \<and> verify_token all_up (sample_request ''GET'' ''/clients/1'' ''Bearer abc'') world_redis_down
       = (JNull, world_redis_down)"
  using cache_failure_propagates [of world_redis_down rate_limiter "''10.0.0.7:curl''"
      sample_env "sample_request ''GET'' ''/clients/1'' ''Bearer abc''"
      "router sample_env all_up" all_up "''abc''"]
  by (simp add: world_redis_down_def world_init_def)

subsection \<open>The headers the middleware sets\<close>

text \<open>
  C4, as stated (every response carries X-Request-ID and X-Process-Time, the 429 of the
  rate limiter included), fails on the code: the 429 is returned before the request id
  is drawn. A sender whose counter stands at 100 gets a 429 that carries neither header.
\<close>

theorem rate_limited_response_without_headers:
  "(case app sample_env all_up (sample_request ''GET'' ''/clients/1'' ''Bearer abc'') world_at_limit of
      (Inl ex, w') \<Rightarrow> False
    | (Inr r, w') \<Rightarrow> status r = 429 \<and> headers r ''x-request-id'' = None
                      \<and> headers r ''x-process-time'' = None)"
  by (simp add: app_def logging_and_rate_limit_middleware_def identifier_of_def sample_request_def
        world_at_limit_def world_init_def is_allowed_def redis_incr_def redis_expire_def
        redis_lookup_def rate_limiter_def JSONResponse_def Let_def)

text \<open>
  C4, amended: every response that the middleware returns for a request the rate limiter
  allowed carries X-Request-ID (the id drawn for the request) and X-Process-Time; the
  HTTP 429 response returned when the rate limiter denies the request has the body
  \<open>{"detail": "Rate limit exceeded"}\<close> and carries neither header.
\<close>

theorem middleware_headers:
  "(fst (is_allowed rate_limiter (identifier_of request) w) = Inr True
      \<and> logging_and_rate_limit_middleware e request call_next w = (Inr resp, w')
    \<longrightarrow> headers resp ''x-request-id'' = Some (fresh_uuid e)
        \<and> headers resp ''x-process-time'' = Some (process_time e))
   \<and> (fst (is_allowed rate_limiter (identifier_of request) w) = Inr False
    \<longrightarrow> fst (logging_and_rate_limit_middleware e request call_next w)
          = Inr \<lparr> status = 429, headers = Map.empty,
                  body = Structured (JObj [(''detail'', JStr ''Rate limit exceeded'')]) \<rparr>)"
  by (auto simp: logging_and_rate_limit_middleware_def JSONResponse_def Let_def
      split: prod.splits sum.splits bool.splits)

theorem middleware_headers_witness:
  "(case logging_and_rate_limit_middleware sample_env (sample_request ''GET'' ''/health'' [])
           (\<lambda>rq w. (Inr (JSONResponse 200 (Structured JNull) Map.empty), w)) world_init of
      (Inl ex, w') \<Rightarrow> False
    | (Inr r, w') \<Rightarrow> headers r ''x-request-id'' = Some ''uuid-1''
                      \<and> headers r ''x-process-time'' = Some ''0.01'')
   \<and> fst (logging_and_rate_limit_middleware sample_env (sample_request ''GET'' ''/health'' [])
           (\<lambda>rq w. (Inr (JSONResponse 200 (Structured JNull) Map.empty), w)) world_at_limit)
       = Inr \<lparr> status = 429, headers = Map.empty,
               body = Structured (JObj [(''detail'', JStr ''Rate limit exceeded'')]) \<rparr>"
proof -
  let ?rq = "sample_request ''GET'' ''/health'' []"
  let ?cn = "\<lambda>rq w. (Inr (JSONResponse 200 (Structured JNull) Map.empty), w) :: (exn + response) \<times> world"
  have i: "identifier_of ?rq = ''10.0.0.7:curl''"
    by (simp add: identifier_of_def sample_request_def)
  have a: "fst (is_allowed rate_limiter (identifier_of ?rq) world_init) = Inr True"
    by (simp add: i is_allowed_def redis_incr_def redis_expire_def redis_lookup_def
          rate_limiter_def world_init_def)
  have d: "fst (is_allowed rate_limiter (identifier_of ?rq) world_at_limit) = Inr False"
    by (simp add: i is_allowed_def redis_incr_def redis_expire_def redis_lookup_def
          rate_limiter_def world_init_def world_at_limit_def)
  obtain x W where m: "logging_and_rate_limit_middleware sample_env ?rq ?cn world_init = (x, W)"
    by (cases "logging_and_rate_limit_middleware sample_env ?rq ?cn world_init")
  have "\<exists>R. x = Inr R"
    using m a by (auto simp: logging_and_rate_limit_middleware_def Let_def
       split: prod.splits sum.splits bool.splits)
  then obtain R where x: "x = Inr R" by blast
  show ?thesis
    using middleware_headers [of ?rq world_init sample_env ?cn R W]
          middleware_headers [of ?rq world_at_limit sample_env ?cn] a d m x
    by (simp add: sample_env_def)
qed

subsection \<open>The failures of the proxy\<close>

text \<open>
  C7: \<open>proxy_request\<close> keeps its three failures apart. A service name that is not in the
  table raises HTTP 404 naming the service (nothing is sent); a timeout of the call to
  the backend raises HTTP 504 naming the service; any other httpx request error raises
  HTTP 503 naming the service. FastAPI answers such an exception with a response of that
  status whose body is the detail, so none of them reaches the client as a 500.
\<close>

theorem proxy_failure_statuses:
  "(map_of SERVICES service_name = None
      \<longrightarrow> proxy_request net service_name path request w
            = (Inl (HTTPException 404 (''Service '' @ service_name @ '' not found'')), w))
   \<and> (map_of SERVICES service_name = Some url \<and> state_request_id request = Some rid
       \<and> net (clock w) (proxy_call url path request rid) = Inl (TimeoutException, str_e)
      \<longrightarrow> fst (proxy_request net service_name path request w)
            = Inl (HTTPException 504 (''Timeout calling '' @ service_name)))
   \<and> (map_of SERVICES service_name = Some url \<and> state_request_id request = Some rid
       \<and> net (clock w) (proxy_call url path request rid) = Inl (RequestError, str_e)
      \<longrightarrow> fst (proxy_request net service_name path request w)
            = Inl (HTTPException 503 (''Service '' @ service_name @ '' unavailable'')))
   \<and> http_exception_handler (Inl (HTTPException code detail), w)
        = (Inr \<lparr> status = code, headers = Map.empty,
                  body = Structured (JObj [(''detail'', JStr detail)]) \<rparr>, w)"
  by (simp add: proxy_request_def send_call_def proxy_except_def http_exception_handler_def
        JSONResponse_def)

theorem proxy_failure_statuses_witness:
  "fst (proxy_request all_up ''pharmacy'' ''/x''
          ((sample_request ''GET'' ''/x'' [])\<lparr> state_request_id := Some ''uuid-1'' \<rparr>) world_init)
     = Inl (HTTPException 404 ''Service pharmacy not found'')
   \<and> fst (proxy_request timing_out ''billing'' ''/x''
          ((sample_request ''GET'' ''/x'' [])\<lparr> state_request_id := Some ''uuid-1'' \<rparr>) world_init)
     = Inl (HTTPException 504 ''Timeout calling billing'')
   \<and> fst (proxy_request refusing ''billing'' ''/x''
          ((sample_request ''GET'' ''/x'' [])\<lparr> state_request_id := Some ''uuid-1'' \<rparr>) world_init)
     = Inl (HTTPException 503 ''Service billing unavailable'')
   \<and> fst (http_exception_handler (Inl (HTTPException 504 ''Timeout calling billing''), world_init))
     = Inr \<lparr> status = 504, headers = Map.empty,
             body = Structured (JObj [(''detail'', JStr ''Timeout calling billing'')]) \<rparr>"
proof -
  let ?rq = "(sample_request ''GET'' ''/x'' [])\<lparr> state_request_id := Some ''uuid-1'' \<rparr>"
  have u: "map_of SERVICES ''pharmacy'' = None"
    and k: "map_of SERVICES ''billing'' = Some ''http://billing-service:8005''"
    by (simp_all add: SERVICES_def)
  have r: "state_request_id ?rq = Some ''uuid-1''" by simp
  have t: "timing_out (clock world_init) (proxy_call ''http://billing-service:8005'' ''/x'' ?rq ''uuid-1'')
             = Inl (TimeoutException, [])"
    by (simp add: timing_out_def)
  have c: "refusing (clock world_init) (proxy_call ''http://billing-service:8005'' ''/x'' ?rq ''uuid-1'')
             = Inl (RequestError, ''All connection attempts failed'')"
    by (simp add: refusing_def)
  show ?thesis
    using proxy_failure_statuses [where service_name = "''pharmacy''" and net = all_up
            and path = "''/x''" and request = ?rq and w = world_init
            and code = 504 and detail = "''Timeout calling billing''"]
          proxy_failure_statuses [where service_name = "''billing''" and net = timing_out
            and path = "''/x''" and request = ?rq and w = world_init
            and url = "''http://billing-service:8005''" and rid = "''uuid-1''" and str_e = "[]"
            and code = 504 and detail = "''Timeout calling billing''"]
          proxy_failure_statuses [where service_name = "''billing''" and net = refusing
            and path = "''/x''" and request = ?rq and w = world_init
            and url = "''http://billing-service:8005''" and rid = "''uuid-1''"
            and str_e = "''All connection attempts failed''"
            and code = 504 and detail = "''Timeout calling billing''"]
          u k r t c
    by simp
qed

subsection \<open>The token cache\<close>

lemma auth_url: "map_of SERVICES ''auth'' = Some ''http://auth-service:8001''"
  by (simp add: SERVICES_def)

lemma verify_upstream_success:
  assumes "redis_up w" "net (clock w) (verify_call ''http://auth-service:8001'' token) = Inr r"
    "status_code r = 200" "resp_body r = Encoded user"
  shows "verify_upstream net token w =
     (user, w\<lparr> issued := issued w @ [verify_call ''http://auth-service:8001'' token],
               redis_db := (redis_db w)(''token:'' @ token \<mapsto> (Blob (Encoded user), Some (clock w + 600))) \<rparr>)"
  using assms
  by (simp add: verify_upstream_def auth_url send_call_def redis_setex_def json_dumps_def)

lemma verify_token_hit:
  assumes "req_headers request ''authorization'' = Some h" "h \<noteq> []"
    "redis_up w" "redis_lookup w (''token:'' @ str_replace ''Bearer '' [] h) = Some (Blob (Encoded u), t)"
  shows "verify_token net request w = (u, w)"
  using assms by (simp add: verify_token_def redis_get_def Let_def)

lemma verify_token_miss:
  assumes "req_headers request ''authorization'' = Some h" "h \<noteq> []"
    "redis_up w" "redis_lookup w (''token:'' @ str_replace ''Bearer '' [] h) = None"
  shows "verify_token net request w = verify_upstream net (str_replace ''Bearer '' [] h) w"
  using assms by (simp add: verify_token_def redis_get_def Let_def)

text \<open>
  C5, as stated (the cache entry lives as long as the token remains valid, so there is
  no cache hit after the token's expiry), fails on the code. The token here is valid
  until time 100; it is verified at time 0 and cached until time 600. At time 200 the
  authentication service rejects the token, yet \<open>verify_token\<close> answers with the
  cached identity.
\<close>

theorem token_cached_past_expiry:
  "fst (verify_token (auth_valid_until 100) (sample_request ''GET'' ''/clients/1'' ''Bearer abc'')
         (at_time 0 world_init)) = sample_user
   \<and> redis_db (snd (verify_token (auth_valid_until 100)
                      (sample_request ''GET'' ''/clients/1'' ''Bearer abc'') (at_time 0 world_init)))
        ''token:abc'' = Some (Blob (Encoded sample_user), Some 600)
   \<and> fst (verify_upstream (auth_valid_until 100) ''abc'' (at_time 200 world_init)) = JNull
   \<and> fst (verify_token (auth_valid_until 100) (sample_request ''GET'' ''/clients/1'' ''Bearer abc'')
           (at_time 200 (snd (verify_token (auth_valid_until 100)
                      (sample_request ''GET'' ''/clients/1'' ''Bearer abc'') (at_time 0 world_init)))))
       = sample_user"
  by (simp add: verify_token_def verify_upstream_def auth_url send_call_def redis_setex_def
        redis_get_def redis_lookup_def json_dumps_def Let_def str_replace_def
        sample_request_def world_init_def at_time_def auth_valid_until_def ok_response_def
        denied_response_def)

text \<open>
  C5, amended: the verifier stores the identity under \<open>token:<t>\<close> with the fixed TTL of
  600 seconds, whatever the token's remaining validity. After a verification by the
  authentication service at time \<open>clock w\<close>, every \<open>verify_token\<close> for that token before
  \<open>clock w + 600\<close> is answered from the cache, whatever the authentication service would
  say by then; from \<open>clock w + 600\<close> on the entry is gone and the authentication service
  is asked again.
\<close>

theorem token_cache_fixed_ttl:
  assumes "redis_up w"
    and "net (clock w) (verify_call ''http://auth-service:8001'' token) = Inr r"
    and "status_code r = 200" and "resp_body r = Encoded user"
    and "req_headers request ''authorization'' = Some h" and "h \<noteq> []"
    and "str_replace ''Bearer '' [] h = token"
  shows "redis_db (snd (verify_upstream net token w)) (''token:'' @ token)
           = Some (Blob (Encoded user), Some (clock w + 600))
     \<and> (t' < clock w + 600 \<longrightarrow>
          verify_token net' request (at_time t' (snd (verify_upstream net token w)))
            = (user, at_time t' (snd (verify_upstream net token w))))
     \<and> (clock w + 600 \<le> t' \<longrightarrow>
          verify_token net' request (at_time t' (snd (verify_upstream net token w)))
            = verify_upstream net' token (at_time t' (snd (verify_upstream net token w))))"
proof -
  let ?w' = "snd (verify_upstream net token w)"
  have db: "redis_db ?w' (''token:'' @ token) = Some (Blob (Encoded user), Some (clock w + 600))"
    and up: "redis_up ?w'"
    using assms(1-4) by (simp_all add: verify_upstream_success)
  have hit: "verify_token net' request (at_time t' ?w') = (user, at_time t' ?w')"
    if "t' < clock w + 600"
    using that db up assms(5-7)
    by (intro verify_token_hit[where h = h and t = "Some (clock w + 600)"])
       (simp_all add: redis_lookup_def)
  have miss: "verify_token net' request (at_time t' ?w') = verify_upstream net' token (at_time t' ?w')"
    if "clock w + 600 \<le> t'"
    using that db up assms(5-7) verify_token_miss[of request h "at_time t' ?w'" net']
    by (simp add: redis_lookup_def)
  show ?thesis using db hit miss by blast
qed

theorem token_cache_fixed_ttl_witness:
  "redis_db (snd (verify_upstream (auth_valid_until 100) ''abc'' (at_time 0 world_init))) ''token:abc''
     = Some (Blob (Encoded sample_user), Some 600)
   \<and> fst (verify_token (auth_valid_until 100) (sample_request ''GET'' ''/clients/1'' ''Bearer abc'')
           (at_time 200 (snd (verify_upstream (auth_valid_until 100) ''abc'' (at_time 0 world_init)))))
       = sample_user
   \<and> verify_token (auth_valid_until 100) (sample_request ''GET'' ''/clients/1'' ''Bearer abc'')
           (at_time 700 (snd (verify_upstream (auth_valid_until 100) ''abc'' (at_time 0 world_init))))
       = verify_upstream (auth_valid_until 100) ''abc''
           (at_time 700 (snd (verify_upstream (auth_valid_until 100) ''abc'' (at_time 0 world_init))))"
proof -
  let ?w = "at_time 0 world_init"
  have a: "redis_up ?w" by (simp add: world_init_def)
  have b: "auth_valid_until 100 (clock ?w) (verify_call ''http://auth-service:8001'' ''abc'')
             = Inr (ok_response sample_user)"
    by (simp add: auth_valid_until_def)
  have c: "status_code (ok_response sample_user) = 200"
    and d: "resp_body (ok_response sample_user) = Encoded sample_user"
    by (simp_all add: ok_response_def)
  have e: "req_headers (sample_request ''GET'' ''/clients/1'' ''Bearer abc'') ''authorization''
             = Some ''Bearer abc''"
    by (simp add: sample_request_def)
  have f: "''Bearer abc'' \<noteq> []" by simp
  have g: "str_replace ''Bearer '' [] ''Bearer abc'' = ''abc''"
    by (simp add: str_replace_def)
  show ?thesis
    using token_cache_fixed_ttl [where w = ?w and net = "auth_valid_until 100"
            and token = "''abc''" and r = "ok_response sample_user" and user = sample_user
            and request = "sample_request ''GET'' ''/clients/1'' ''Bearer abc''"
            and h = "''Bearer abc''" and t' = 200 and net' = "auth_valid_until 100"]
          token_cache_fixed_ttl [where w = ?w and net = "auth_valid_until 100"
            and token = "''abc''" and r = "ok_response sample_user" and user = sample_user
            and request = "sample_request ''GET'' ''/clients/1'' ''Bearer abc''"
            and h = "''Bearer abc''" and t' = 700 and net' = "auth_valid_until 100"]
          a b c d e f g
    by simp
qed

subsection \<open>The token that is verified\<close>

lemma scan_no_occurrence:
  "\<not> sublist old q \<Longrightarrow> str_replace_scan old new q = q"
  by (induction q) (auto simp: sublist_Cons_right)

lemma prefix_of_shorter:
  "prefix xs (ys @ zs) \<Longrightarrow> length xs \<le> length ys \<Longrightarrow> prefix xs ys"
  by (auto simp: prefix_append)

lemma scan_first_occurrence:
  assumes "old \<noteq> []" and "\<not> sublist old (a @ butlast old)"
  shows "str_replace_scan old new (a @ old @ b) = a @ new @ str_replace_scan old new b"
  using assms(2)
proof (induction a)
  case Nil
  obtain c cs where old: "old = c # cs" using assms(1) by (cases old) auto
  show ?case by (simp add: old)
next
  case (Cons c a)
  from Cons.prems have np: "\<not> prefix old (c # a @ butlast old)"
    and ns: "\<not> sublist old (a @ butlast old)"
    by (simp_all add: sublist_Cons_right)
  have "old = butlast old @ [last old]" using assms(1) by simp
  then have eq: "c # a @ old @ b = (c # a @ butlast old) @ (last old # b)"
    by (metis append.assoc append_Cons append_Nil)
  have "\<not> prefix old (c # a @ old @ b)"
  proof
    assume "prefix old (c # a @ old @ b)"
    then have "prefix old ((c # a @ butlast old) @ (last old # b))" using eq by simp
    moreover have "length old \<le> length (c # a @ butlast old)" using assms(1) by simp
    ultimately have "prefix old (c # a @ butlast old)" by (rule prefix_of_shorter)
    with np show False by simp
  qed
  then show ?case using Cons.IH[OF ns] by simp
qed

lemma first_occurrence_exists:
  assumes "old \<noteq> []"
  shows "sublist old s \<Longrightarrow> \<exists>a b. s = a @ old @ b \<and> \<not> sublist old (a @ butlast old)"
proof (induction s)
  case Nil
  then show ?case using assms by simp
next
  case (Cons c s)
  show ?case
  proof (cases "prefix old (c # s)")
    case True
    then obtain b where "c # s = old @ b" by (auto simp: prefix_def)
    moreover have "\<not> sublist old (butlast old)"
    proof
      assume "sublist old (butlast old)"
      then have "length old \<le> length (butlast old)" by (rule sublist_length_le)
      then have "length old \<le> length old - 1" by (simp only: length_butlast)
      moreover have "0 < length old" using assms by simp
      ultimately show False by arith
    qed
    ultimately show ?thesis by (intro exI[of _ "[]"] exI[of _ b]) simp
  next
    case False
    then have "sublist old s" using Cons.prems by (simp add: sublist_Cons_right)
    then obtain a b where s: "s = a @ old @ b" and n: "\<not> sublist old (a @ butlast old)"
      using Cons.IH by blast
    have "\<not> prefix old (c # a @ butlast old)"
    proof
      assume p: "prefix old (c # a @ butlast old)"
      have "old = butlast old @ [last old]" using assms by simp
      then have "c # s = (c # a @ butlast old) @ (last old # b)"
        using s by (metis append.assoc append_Cons append_Nil)
      then have "prefix old (c # s)" using p by (metis prefix_prefix)
      with False show False by simp
    qed
    then have "\<not> sublist old ((c # a) @ butlast old)" using n by (simp add: sublist_Cons_right)
    then show ?thesis using s by (intro exI[of _ "c # a"] exI[of _ b]) simp
  qed
qed

lemma str_replace_no_occurrence:
  "old \<noteq> [] \<Longrightarrow> \<not> sublist old q \<Longrightarrow> str_replace old new q = q"
  by (simp add: str_replace_def scan_no_occurrence)

lemma str_replace_first_occurrence:
  "old \<noteq> [] \<Longrightarrow> \<not> sublist old (a @ butlast old) \<Longrightarrow>
     str_replace old new (a @ old @ b) = a @ new @ str_replace old new b"
  by (simp add: str_replace_def scan_first_occurrence)

lemma verify_upstream_issued:
  "issued (snd (verify_upstream net token w)) = issued w @ [verify_call ''http://auth-service:8001'' token]"
  by (simp add: verify_upstream_def auth_url send_call_def redis_setex_def
      split: sum.splits prod.splits)

lemma verify_upstream_keys:
  "k \<noteq> ''token:'' @ token \<Longrightarrow> redis_db (snd (verify_upstream net token w)) k = redis_db w k"
  by (simp add: verify_upstream_def auth_url send_call_def redis_setex_def
      split: sum.splits prod.splits)

text \<open>
  C10: for a non-empty Authorization header \<open>h\<close>, \<open>verify_token\<close> works with
  \<open>h.replace("Bearer ", "")\<close>. The cache is read under \<open>token:\<close> followed by that value
  (a hit there is the answer); on a miss exactly one call goes to the authentication
  service, its Authorization header is \<open>"Bearer "\<close> followed by that value, and no other
  cache key is written. The value is the header with every occurrence of \<open>"Bearer "\<close>
  cut out that the scan from the left meets, wherever it stands: a text without an
  occurrence is left as it is; in \<open>a @ "Bearer " @ b\<close>, where no occurrence begins
  inside \<open>a\<close>, that first occurrence is removed and the rest \<open>b\<close> is treated the same
  way; and every text with an occurrence has this form. So the value is fixed for every
  header, and a credential with \<open>"Bearer "\<close> anywhere inside it is altered.
\<close>

theorem bearer_removed_everywhere:
  assumes "req_headers request ''authorization'' = Some h" and "h \<noteq> []" and "redis_up w"
  shows
    "(\<forall>u t. redis_lookup w (''token:'' @ str_replace ''Bearer '' [] h) = Some (Blob (Encoded u), t)
        \<longrightarrow> verify_token net request w = (u, w))
     \<and> (redis_lookup w (''token:'' @ str_replace ''Bearer '' [] h) = None
        \<longrightarrow> verify_token net request w = verify_upstream net (str_replace ''Bearer '' [] h) w
          \<and> issued (snd (verify_token net request w))
              = issued w @ [verify_call ''http://auth-service:8001'' (str_replace ''Bearer '' [] h)]
          \<and> (\<forall>k. k \<noteq> ''token:'' @ str_replace ''Bearer '' [] h
                \<longrightarrow> redis_db (snd (verify_token net request w)) k = redis_db w k))
     \<and> call_headers (verify_call url (str_replace ''Bearer '' [] h)) ''Authorization''
          = Some (''Bearer '' @ str_replace ''Bearer '' [] h)
     \<and> (\<forall>q. \<not> sublist ''Bearer '' q \<longrightarrow> str_replace ''Bearer '' [] q = q)
     \<and> (\<forall>a b. \<not> sublist ''Bearer '' (a @ ''Bearer'')
          \<longrightarrow> str_replace ''Bearer '' [] (a @ ''Bearer '' @ b) = a @ str_replace ''Bearer '' [] b)
     \<and> (\<forall>s. sublist ''Bearer '' s
          \<longrightarrow> (\<exists>a b. s = a @ ''Bearer '' @ b \<and> \<not> sublist ''Bearer '' (a @ ''Bearer'')))"
proof (intro conjI allI impI)
  fix u t
  assume "redis_lookup w (''token:'' @ str_replace ''Bearer '' [] h) = Some (Blob (Encoded u), t)"
  then show "verify_token net request w = (u, w)"
    by (rule verify_token_hit[OF assms])
next
  assume miss: "redis_lookup w (''token:'' @ str_replace ''Bearer '' [] h) = None"
  note eq = verify_token_miss[OF assms miss]
  show "verify_token net request w = verify_upstream net (str_replace ''Bearer '' [] h) w"
    by (rule eq)
  show "issued (snd (verify_token net request w))
          = issued w @ [verify_call ''http://auth-service:8001'' (str_replace ''Bearer '' [] h)]"
    unfolding eq by (rule verify_upstream_issued)
  fix k
  assume "k \<noteq> ''token:'' @ str_replace ''Bearer '' [] h"
  then show "redis_db (snd (verify_token net request w)) k = redis_db w k"
    unfolding eq by (rule verify_upstream_keys)
next
  show "call_headers (verify_call url (str_replace ''Bearer '' [] h)) ''Authorization''
          = Some (''Bearer '' @ str_replace ''Bearer '' [] h)"
    by (simp add: verify_call_def)
next
  fix q :: string
  assume "\<not> sublist ''Bearer '' q"
  then show "str_replace ''Bearer '' [] q = q"
    by (intro str_replace_no_occurrence) simp_all
next
  fix a b :: string
  assume "\<not> sublist ''Bearer '' (a @ ''Bearer'')"
  then have "\<not> sublist ''Bearer '' (a @ butlast ''Bearer '')" by simp
  then have "str_replace ''Bearer '' [] (a @ ''Bearer '' @ b) = a @ [] @ str_replace ''Bearer '' [] b"
    by (intro str_replace_first_occurrence) simp_all
  then show "str_replace ''Bearer '' [] (a @ ''Bearer '' @ b) = a @ str_replace ''Bearer '' [] b"
    by simp
next
  fix s :: string
  assume "sublist ''Bearer '' s"
  then have "\<exists>a b. s = a @ ''Bearer '' @ b \<and> \<not> sublist ''Bearer '' (a @ butlast ''Bearer '')"
    by (intro first_occurrence_exists) simp_all
  then show "\<exists>a b. s = a @ ''Bearer '' @ b \<and> \<not> sublist ''Bearer '' (a @ ''Bearer'')"
    by simp
qed

theorem bearer_removed_everywhere_witness:
  "str_replace ''Bearer '' [] ''B Bearer x'' = ''B x''
   \<and> (\<exists>a b. ''B Bearer x'' = a @ ''Bearer '' @ b \<and> \<not> sublist ''Bearer '' (a @ ''Bearer''))
   \<and> issued (snd (verify_token all_up (sample_request ''GET'' ''/clients/1'' ''Bearer abBearer cd'')
                    world_init))
       = [verify_call ''http://auth-service:8001'' ''abcd'']
   \<and> call_headers (verify_call ''http://auth-service:8001'' ''abcd'') ''Authorization''
       = Some ''Bearer abcd''
   \<and> fst (verify_token refusing (sample_request ''GET'' ''/clients/1'' ''Bearer abBearer cd'')
           (world_init\<lparr> redis_db := [''token:abcd'' \<mapsto> (Blob (Encoded sample_user), Some 600)] \<rparr>))
       = sample_user"
proof -
  let ?rq = "sample_request ''GET'' ''/clients/1'' ''Bearer abBearer cd''"
  let ?wc = "world_init\<lparr> redis_db := [''token:abcd'' \<mapsto> (Blob (Encoded sample_user), Some 600)] \<rparr>"
  have a: "req_headers ?rq ''authorization'' = Some ''Bearer abBearer cd''"
    by (simp add: sample_request_def)
  have b: "''Bearer abBearer cd'' \<noteq> []" by simp
  have c: "redis_up world_init" "redis_up ?wc" by (simp_all add: world_init_def)
  note miss = bearer_removed_everywhere [OF a b c(1), of all_up "''http://auth-service:8001''"]
  note hit = bearer_removed_everywhere [OF a b c(2), of refusing "''http://auth-service:8001''"]
  have n1: "\<not> sublist ''Bearer '' (''B '' @ ''Bearer'')"
    and n2: "\<not> sublist ''Bearer '' ''x''"
    and n3: "\<not> sublist ''Bearer '' ([] @ ''Bearer'')"
    and n4: "\<not> sublist ''Bearer '' (''ab'' @ ''Bearer'')"
    and n5: "\<not> sublist ''Bearer '' ''cd''"
    and o1: "sublist ''Bearer '' ''B Bearer x''"
    by (simp_all add: sublist_Cons_right)
  have x: "str_replace ''Bearer '' [] ''x'' = ''x''"
    and y: "str_replace ''Bearer '' [] ''cd'' = ''cd''"
    using miss n2 n5 by blast+
  have "str_replace ''Bearer '' [] (''B '' @ ''Bearer '' @ ''x'') = ''B '' @ str_replace ''Bearer '' [] ''x''"
    using miss n1 by blast
  then have s1: "str_replace ''Bearer '' [] ''B Bearer x'' = ''B x''"
    by (simp add: x)
  have "str_replace ''Bearer '' [] (''ab'' @ ''Bearer '' @ ''cd'') = ''ab'' @ str_replace ''Bearer '' [] ''cd''"
    using miss n4 by blast
  then have s2: "str_replace ''Bearer '' [] ''abBearer cd'' = ''abcd''"
    by (simp add: y)
  have "str_replace ''Bearer '' [] ([] @ ''Bearer '' @ ''abBearer cd'')
          = [] @ str_replace ''Bearer '' [] ''abBearer cd''"
    using miss n3 by blast
  then have s: "str_replace ''Bearer '' [] ''Bearer abBearer cd'' = ''abcd''"
    by (simp add: s2)
  have s3: "\<exists>a b. ''B Bearer x'' = a @ ''Bearer '' @ b \<and> \<not> sublist ''Bearer '' (a @ ''Bearer'')"
    using miss o1 by blast
  have d: "redis_lookup world_init (''token:'' @ str_replace ''Bearer '' [] ''Bearer abBearer cd'') = None"
    by (simp add: redis_lookup_def world_init_def)
  have h: "redis_lookup ?wc (''token:'' @ str_replace ''Bearer '' [] ''Bearer abBearer cd'')
             = Some (Blob (Encoded sample_user), Some 600)"
    by (simp add: s redis_lookup_def world_init_def)
  have e: "issued world_init = []" by (simp add: world_init_def)
  have r: "issued (snd (verify_token all_up ?rq world_init))
             = [verify_call ''http://auth-service:8001'' ''abcd'']
           \<and> call_headers (verify_call ''http://auth-service:8001'' ''abcd'') ''Authorization''
             = Some ''Bearer abcd''
           \<and> fst (verify_token refusing ?rq ?wc) = sample_user"
    using miss hit d h e by (auto simp: s)
  show ?thesis
    using s1 s3 r by blast
qed

subsection \<open>The health route\<close>

lemma entry_healthy_probe:
  "entry_healthy (probe_entry r) = (case r of Inr resp \<Rightarrow> status_code resp = 200 | Inl ex \<Rightarrow> False)"
  by (simp add: probe_entry_def split: sum.splits)

lemma dict_set_fresh: "k \<notin> fst ` set d \<Longrightarrow> dict_set k v d = d @ [(k, v)]"
  by (simp add: dict_set_def)

lemma health_loop_eq:
  "distinct (map fst acc @ map fst svcs) \<Longrightarrow>
     health_loop net svcs acc w =
       (acc @ map (\<lambda>(name, url). (name, probe_entry (net (clock w) (health_call url)))) svcs,
        w\<lparr> issued := issued w @ map (\<lambda>(name, url). health_call url) svcs \<rparr>)"
proof (induction svcs arbitrary: acc w)
  case Nil
  then show ?case by simp
next
  case (Cons s svcs)
  obtain name url where s: "s = (name, url)" by (cases s)
  have fresh: "name \<notin> fst ` set acc" using Cons.prems by (auto simp: s)
  have d: "distinct (map fst (acc @ [(name, probe_entry (net (clock w) (health_call url)))]) @ map fst svcs)"
    using Cons.prems by (simp add: s)
  show ?case
    by (simp add: s send_call_def dict_set_fresh[OF fresh] Cons.IH[OF d])
qed

lemma services_distinct: "distinct (map fst SERVICES)"
  by (simp add: SERVICES_def)

lemma health_check_eq:
  "health_check e net w =
     (JObj [(''status'', JStr (if list_all (\<lambda>(name, url). probe_ok net (clock w) url) SERVICES
                               then ''healthy'' else ''degraded'')),
            (''timestamp'', JStr (utc_now e)),
            (''services'', JObj (map (\<lambda>(name, url).
                                   (name, probe_entry (net (clock w) (health_call url)))) SERVICES))],
      w\<lparr> issued := issued w @ map (\<lambda>(name, url). health_call url) SERVICES \<rparr>)"
proof -
  have l: "health_loop net SERVICES [] w =
       (map (\<lambda>(name, url). (name, probe_entry (net (clock w) (health_call url)))) SERVICES,
        w\<lparr> issued := issued w @ map (\<lambda>(name, url). health_call url) SERVICES \<rparr>)"
    using health_loop_eq[of "[]" SERVICES net w] services_distinct by simp
  have a: "list_all (\<lambda>(name, s). entry_healthy s)
             (map (\<lambda>(name, url). (name, probe_entry (net (clock w) (health_call url)))) xs)
           = list_all (\<lambda>(name, url). probe_ok net (clock w) url) xs" for xs
    by (induction xs) (auto simp: entry_healthy_probe probe_ok_def split: sum.splits)
  show ?thesis
    by (simp add: health_check_def l a Let_def)
qed

lemma router_health:
  assumes "req_path request = ''/health''" "req_method request = ''GET''"
  shows "router e net request w = returned (health_check e net w)"
  using assms
  by (simp add: router_def Let_def returned_def http_exception_handler_def split: prod.splits)

text \<open>
  C8, as stated (a request to \<open>/health\<close> never invokes the rate limiter), fails on the
  code: the middleware runs for every HTTP request. A sender at the limit who asks for
  \<open>/health\<close> gets 429, the counter is incremented, and no backend is probed.
\<close>

theorem health_is_rate_limited:
  "(case app sample_env all_up (sample_request ''GET'' ''/health'' ''Bearer abc'') world_at_limit of
      (Inl ex, w') \<Rightarrow> False
    | (Inr r, w') \<Rightarrow> status r = 429 \<and> issued w' = []
         \<and> redis_db w' ''rate_limit:10.0.0.7:curl'' = Some (Counter 101, Some 3600))"
  by (simp add: app_def logging_and_rate_limit_middleware_def identifier_of_def sample_request_def
        world_at_limit_def world_init_def is_allowed_def redis_incr_def redis_expire_def
        redis_lookup_def rate_limiter_def JSONResponse_def Let_def)

text \<open>
  C8, amended: a GET of \<open>/health\<close> passes the rate limiter like every other request (an
  error of the limiter escapes, a denial answers 429 and probes nothing). When it is
  allowed, the answer is the result of \<open>health_check\<close> with status 200 and the two
  headers of the middleware. \<open>health_check\<close> sends one \<open>GET <url>/health\<close> with a
  timeout of 5 seconds to each configured backend, in the order of the table, and
  nothing else: no token is verified, nothing is proxied, Redis is not touched. Its status is \<open>healthy\<close> when
  every probe came back with status 200 and \<open>degraded\<close> otherwise, and \<open>services\<close>
  holds the entry of each backend.
\<close>

theorem health_route:
  assumes "req_path request = ''/health''" and "req_method request = ''GET''"
  shows "app e net request w =
      (case is_allowed rate_limiter (identifier_of request) w of
         (Inl ex, w1) \<Rightarrow> (Inl ex, w1)
       | (Inr False, w1) \<Rightarrow>
           (Inr \<lparr> status = 429, headers = Map.empty,
                   body = Structured (JObj [(''detail'', JStr ''Rate limit exceeded'')]) \<rparr>, w1)
       | (Inr True, w1) \<Rightarrow>
           (Inr \<lparr> status = 200,
                   headers = [''x-request-id'' \<mapsto> fresh_uuid e,
                              ''x-process-time'' \<mapsto> process_time e],
                   body = Structured (fst (health_check e net w1)) \<rparr>,
            snd (health_check e net w1)))
    \<and> health_check e net w =
     (JObj [(''status'', JStr (if list_all (\<lambda>(name, url). probe_ok net (clock w) url) SERVICES
                               then ''healthy'' else ''degraded'')),
            (''timestamp'', JStr (utc_now e)),
            (''services'', JObj (map (\<lambda>(name, url).
                                   (name, probe_entry (net (clock w) (health_call url)))) SERVICES))],
      w\<lparr> issued := issued w @ map (\<lambda>(name, url). health_call url) SERVICES \<rparr>)
    \<and> call_timeout (health_call url) = 5 \<and> call_method (health_call url) = ''GET''
    \<and> call_url (health_call url) = url @ ''/health''"
proof (intro conjI)
  have r: "router e net (request\<lparr> state_request_id := Some rid \<rparr>) w1 = returned (health_check e net w1)" for rid w1
    using assms by (intro router_health) simp_all
  show "app e net request w =
      (case is_allowed rate_limiter (identifier_of request) w of
         (Inl ex, w1) \<Rightarrow> (Inl ex, w1)
       | (Inr False, w1) \<Rightarrow>
           (Inr \<lparr> status = 429, headers = Map.empty,
                   body = Structured (JObj [(''detail'', JStr ''Rate limit exceeded'')]) \<rparr>, w1)
       | (Inr True, w1) \<Rightarrow>
           (Inr \<lparr> status = 200,
                   headers = [''x-request-id'' \<mapsto> fresh_uuid e,
                              ''x-process-time'' \<mapsto> process_time e],
                   body = Structured (fst (health_check e net w1)) \<rparr>,
            snd (health_check e net w1)))"
    by (simp add: app_def logging_and_rate_limit_middleware_def Let_def r returned_def
          JSONResponse_def split: prod.splits sum.splits bool.splits)
  show "health_check e net w =
     (JObj [(''status'', JStr (if list_all (\<lambda>(name, url). probe_ok net (clock w) url) SERVICES
                               then ''healthy'' else ''degraded'')),
            (''timestamp'', JStr (utc_now e)),
            (''services'', JObj (map (\<lambda>(name, url).
                                   (name, probe_entry (net (clock w) (health_call url)))) SERVICES))],
      w\<lparr> issued := issued w @ map (\<lambda>(name, url). health_call url) SERVICES \<rparr>)"
    by (rule health_check_eq)
  show "call_timeout (health_call url) = 5" "call_method (health_call url) = ''GET''"
    "call_url (health_call url) = url @ ''/health''"
    by (simp_all add: health_call_def)
qed

theorem health_route_witness:
  "fst (app sample_env all_up (sample_request ''GET'' ''/health'' []) world_at_limit)
     = Inr \<lparr> status = 429, headers = Map.empty,
             body = Structured (JObj [(''detail'', JStr ''Rate limit exceeded'')]) \<rparr>
   \<and> map call_url (issued (snd (health_check sample_env refusing world_init)))
     = [''http://auth-service:8001/health'', ''http://clients-pets-service:8002/health'',
        ''http://appointments-service:8003/health'', ''http://medical-records-service:8004/health'',
        ''http://billing-service:8005/health'', ''http://notifications-service:8006/health'',
        ''http://employees-service:8007/health'']"
proof -
  let ?rq = "sample_request ''GET'' ''/health'' []"
  have p: "req_path ?rq = ''/health''" and m: "req_method ?rq = ''GET''"
    by (simp_all add: sample_request_def)
  have d: "is_allowed rate_limiter (identifier_of ?rq) world_at_limit
             = (Inr False, world_at_limit\<lparr> redis_db :=
                  [''rate_limit:10.0.0.7:curl'' \<mapsto> (Counter 101, Some 3600)] \<rparr>)"
    by (simp add: identifier_of_def sample_request_def is_allowed_def redis_incr_def
          redis_expire_def redis_lookup_def rate_limiter_def world_init_def world_at_limit_def)
  have i: "issued world_init = []" by (simp add: world_init_def)
  show ?thesis
    using health_route [OF p m, of sample_env all_up world_at_limit]
          health_route [OF p m, of sample_env refusing world_init] d i
    by (simp add: SERVICES_def health_call_def)
qed

subsection \<open>The dashboard summary\<close>

lemma svc_urls:
  "map_of SERVICES ''appointments'' = Some ''http://appointments-service:8003''"
  "map_of SERVICES ''billing'' = Some ''http://billing-service:8005''"
  "map_of SERVICES ''notifications'' = Some ''http://notifications-service:8006''"
  by (simp_all add: SERVICES_def)

text \<open>
  C1 (when exactly one of the three calls fails, the summary holds the fields of the
  other two and an error annotation) does not hold of the code: the three calls stand in
  one \<open>try\<close>, one after the other, so the first exception ends them all. When the call
  to the appointments service is refused and the two other services would answer 200,
  the summary holds the error annotation alone, and the billing and notifications
  services are never called. Only a failure of the last call leaves the other two fields.
\<close>

theorem dashboard_first_failure_drops_rest:
  "fst (dashboard_summary appointments_down
          (sample_request ''GET'' ''/dashboard/summary'' ''Bearer abc'') world_init)
     = [(''error'', JStr ''Error fetching some dashboard data'')]
   \<and> map call_url (issued (snd (dashboard_summary appointments_down
          (sample_request ''GET'' ''/dashboard/summary'' ''Bearer abc'') world_init)))
     = [''http://appointments-service:8003/today'']
   \<and> fst (dashboard_summary notifications_down
          (sample_request ''GET'' ''/dashboard/summary'' ''Bearer abc'') world_init)
     = [(''todays_appointments'', JArr []), (''pending_invoices'', JArr []),
        (''error'', JStr ''Error fetching some dashboard data'')]"
  by (simp add: dashboard_summary_def dashboard_part_def dashboard_call_def dashboard_except_def
        svc_urls send_call_def dict_set_def sample_request_def world_init_def
        appointments_down_def notifications_down_def ok_response_def)

theorem dashboard_first_failure_drops_rest_witness:
  "map_of (fst (dashboard_summary appointments_down
                  (sample_request ''GET'' ''/dashboard/summary'' ''Bearer abc'') world_init))
          ''pending_invoices'' = None
   \<and> map_of (fst (dashboard_summary appointments_down
                  (sample_request ''GET'' ''/dashboard/summary'' ''Bearer abc'') world_init))
          ''pending_notifications'' = None"
  using dashboard_first_failure_drops_rest by simp

section \<open>Further properties\<close>

subsection \<open>What broadcast does when one write fails\<close>

lemma broadcast_loop_all_ok:
  "(\<forall>c \<in> set xs. send_ok c msg) \<Longrightarrow>
     broadcast_loop send_ok msg i xs d = Inr (xs, d @ drop i xs)"
proof (induction send_ok msg i xs d rule: broadcast_loop.induct)
  case (1 send_ok msg i conns delivered)
  show ?case
  proof (cases "i < length conns")
    case True
    then have ok: "send_ok (conns ! i) msg" using "1.prems" by simp
    have "broadcast_loop send_ok msg i conns delivered
            = broadcast_loop send_ok msg (i + 1) conns (delivered @ [conns ! i])"
      using True ok by (subst broadcast_loop.simps) simp
    also have "\<dots> = Inr (conns, (delivered @ [conns ! i]) @ drop (i + 1) conns)"
      using True ok "1.prems" by (intro "1.IH"(1)) simp_all
    also have "(delivered @ [conns ! i]) @ drop (i + 1) conns = delivered @ drop i conns"
      using True by (simp add: Cons_nth_drop_Suc)
    finally show ?thesis .
  next
    case False
    then show ?thesis by (subst broadcast_loop.simps) simp
  qed
qed

lemma broadcast_loop_prefix_ok:
  "i \<le> k \<Longrightarrow> k \<le> length xs \<Longrightarrow> (\<forall>j<k. send_ok (xs ! j) msg) \<Longrightarrow>
     broadcast_loop send_ok msg i xs d
       = broadcast_loop send_ok msg k xs (d @ take (k - i) (drop i xs))"
proof (induction "k - i" arbitrary: i d)
  case 0
  then show ?case by simp
next
  case (Suc n)
  then have lt: "i < k" "i < length xs" and ok: "send_ok (xs ! i) msg" by auto
  have "broadcast_loop send_ok msg i xs d = broadcast_loop send_ok msg (i + 1) xs (d @ [xs ! i])"
    using lt ok by (subst broadcast_loop.simps) simp
  also have "\<dots> = broadcast_loop send_ok msg k xs ((d @ [xs ! i]) @ take (k - (i + 1)) (drop (i + 1) xs))"
    using Suc.prems Suc.hyps(2) lt by (intro Suc.hyps(1)) auto
  also have "(d @ [xs ! i]) @ take (k - (i + 1)) (drop (i + 1) xs) = d @ take (k - i) (drop i xs)"
  proof -
    have "drop i xs = xs ! i # drop (i + 1) xs" using lt by (simp add: Cons_nth_drop_Suc)
    moreover have "k - i = Suc (k - (i + 1))" using lt by simp
    ultimately show ?thesis by simp
  qed
  finally show ?case .
qed

lemma remove1_nth_distinct:
  "distinct xs \<Longrightarrow> k < length xs \<Longrightarrow> remove1 (xs ! k) xs = take k xs @ drop (Suc k) xs"
proof (induction xs arbitrary: k)
  case Nil
  then show ?case by simp
next
  case (Cons x xs)
  show ?case
  proof (cases k)
    case 0
    then show ?thesis by simp
  next
    case (Suc m)
    then have "xs ! m \<noteq> x" using Cons.prems by auto
    then show ?thesis using Suc Cons by simp
  qed
qed

text \<open>
  In a live list of distinct connections in which the write fails for the
  connection at position \<open>k\<close> and for no other, \<open>broadcast\<close> removes exactly that
  connection, and writes the message to every other connection except the one that
  followed it in the list.
\<close>

theorem broadcast_one_failure:
  assumes "distinct (active_connections m)" and "k < length (active_connections m)"
    and "\<forall>c \<in> set (active_connections m). send_ok c msg \<longleftrightarrow> c \<noteq> active_connections m ! k"
  shows "broadcast send_ok msg m
      = Inr (m\<lparr> active_connections := take k (active_connections m) @ drop (k + 1) (active_connections m) \<rparr>,
             take k (active_connections m) @ drop (k + 2) (active_connections m))"
proof -
  let ?xs = "active_connections m"
  let ?xs' = "take k ?xs @ drop (Suc k) ?xs"
  have pre: "\<forall>j<k. send_ok (?xs ! j) msg"
    using assms by (auto simp: nth_eq_iff_index_eq)
  have bad: "\<not> send_ok (?xs ! k) msg" using assms by simp
  have rm: "list_remove (?xs ! k) ?xs = Inr ?xs'"
    using assms by (simp add: list_remove_def remove1_nth_distinct)
  have rest: "\<forall>c \<in> set ?xs'. send_ok c msg"
  proof
    fix c assume c: "c \<in> set ?xs'"
    then have "c \<in> set ?xs" by (auto dest: in_set_takeD in_set_dropD)
    moreover have "c \<noteq> ?xs ! k"
    proof -
      have "distinct ?xs'" "set ?xs' = set (remove1 (?xs ! k) ?xs)"
        using assms by (simp_all add: remove1_nth_distinct[symmetric])
      then show ?thesis using c assms(1) by simp
    qed
    ultimately show "send_ok c msg" using assms(3) by simp
  qed
  have "broadcast_loop send_ok msg 0 ?xs [] = broadcast_loop send_ok msg k ?xs (take k ?xs)"
    using broadcast_loop_prefix_ok[of 0 k ?xs send_ok msg "[]"] assms(2) pre by simp
  also have "\<dots> = broadcast_loop send_ok msg (k + 1) ?xs' (take k ?xs)"
    using assms(2) bad rm by (subst broadcast_loop.simps) simp
  also have "\<dots> = Inr (?xs', take k ?xs @ drop (k + 1) ?xs')"
    using rest by (rule broadcast_loop_all_ok[where send_ok = send_ok and msg = msg])
  also have "drop (k + 1) ?xs' = drop (k + 2) ?xs"
    using assms(2) by (simp add: min_def)
  finally show ?thesis by (simp add: broadcast_def)
qed

theorem broadcast_one_failure_witness:
  "broadcast (\<lambda>c msg. c \<noteq> 5) ''hi'' \<lparr> active_connections = [4, 5, 6, 7] \<rparr>
     = Inr (\<lparr> active_connections = [4, 6, 7] \<rparr>, [4, 7])"
  using broadcast_one_failure [of "\<lparr> active_connections = [4, 5, 6, 7] \<rparr>" 1 "\<lambda>c msg. c \<noteq> 5" "''hi''"]
  by simp

text \<open>
  When no write fails, \<open>broadcast\<close> writes the message to every live connection, in
  the order of the list, and leaves the list as it is.
\<close>

theorem broadcast_all_delivered:
  "(\<forall>c \<in> set (active_connections m). send_ok c msg) \<Longrightarrow>
     broadcast send_ok msg m = Inr (m, active_connections m)"
  using broadcast_loop_all_ok [of "active_connections m" send_ok msg 0 "[]"]
  by (simp add: broadcast_def)

theorem broadcast_all_delivered_witness:
  "broadcast (\<lambda>c msg. True) ''hi'' \<lparr> active_connections = [4, 5, 6] \<rparr>
     = Inr (\<lparr> active_connections = [4, 5, 6] \<rparr>, [4, 5, 6])"
  using broadcast_all_delivered [of "\<lparr> active_connections = [4, 5, 6] \<rparr>" "\<lambda>c msg. True" "''hi''"]
  by simp

subsection \<open>What the dashboard does when a call raises\<close>

text \<open>
  Whatever the billing and notifications services would answer: when the call to the
  appointments service raises, the summary is the error annotation alone and no other
  call is made. When that call answers 200 with a JSON body and the call to the billing
  service raises, the summary holds today's appointments and the error annotation, and
  the notifications service is not called.
\<close>

theorem dashboard_stops_at_first_exception:
  assumes "req_headers request ''authorization'' = Some auth"
  shows "(net (clock w) (dashboard_call ''http://appointments-service:8003'' ''/today'' auth)
            = Inl (ex, str_ex)
          \<longrightarrow> dashboard_summary net request w
               = ([(''error'', JStr ''Error fetching some dashboard data'')],
                  w\<lparr> issued := issued w
                       @ [dashboard_call ''http://appointments-service:8003'' ''/today'' auth] \<rparr>))
     \<and> (net (clock w) (dashboard_call ''http://appointments-service:8003'' ''/today'' auth) = Inr r
        \<and> status_code r = 200 \<and> resp_body r = Encoded j
        \<and> net (clock w) (dashboard_call ''http://billing-service:8005'' ''/pending'' auth)
            = Inl (ex, str_ex)
          \<longrightarrow> dashboard_summary net request w
               = ([(''todays_appointments'', j),
                   (''error'', JStr ''Error fetching some dashboard data'')],
                  w\<lparr> issued := issued w
                       @ [dashboard_call ''http://appointments-service:8003'' ''/today'' auth,
                          dashboard_call ''http://billing-service:8005'' ''/pending'' auth] \<rparr>))"
  using assms
  by (simp add: dashboard_summary_def dashboard_part_def dashboard_except_def svc_urls
        send_call_def dict_set_def)

theorem dashboard_stops_at_first_exception_witness:
  "fst (dashboard_summary refusing (sample_request ''GET'' ''/dashboard/summary'' ''Bearer abc'')
          world_init)
     = [(''error'', JStr ''Error fetching some dashboard data'')]"
proof -
  have a: "req_headers (sample_request ''GET'' ''/dashboard/summary'' ''Bearer abc'') ''authorization''
             = Some ''Bearer abc''"
    by (simp add: sample_request_def)
  have b: "refusing (clock world_init)
             (dashboard_call ''http://appointments-service:8003'' ''/today'' ''Bearer abc'')
           = Inl (RequestError, ''All connection attempts failed'')"
    by (simp add: refusing_def)
  show ?thesis
    using dashboard_stops_at_first_exception [OF a, where net = refusing and w = world_init
            and ex = RequestError and str_ex = "''All connection attempts failed''"] b
    by simp
qed

subsection \<open>The pipeline\<close>

lemma redis_incr_issued: "issued (snd (redis_incr k w)) = issued w"
  by (auto simp: redis_incr_def split: option.splits rvalue.splits)

lemma redis_expire_issued: "issued (snd (redis_expire k secs w)) = issued w"
  by (auto simp: redis_expire_def split: option.splits)

lemma is_allowed_issued: "issued (snd (is_allowed rl ident w)) = issued w"
proof (cases "redis_up w")
  case False
  then show ?thesis by (simp add: is_allowed_def)
next
  case True
  obtain r0 w1 where i: "redis_incr (''rate_limit:'' @ ident) w = (r0, w1)"
    by (cases "redis_incr (''rate_limit:'' @ ident) w")
  obtain r1 w2 where e: "redis_expire (''rate_limit:'' @ ident) (window rl) w1 = (r1, w2)"
    by (cases "redis_expire (''rate_limit:'' @ ident) (window rl) w1")
  have "issued w1 = issued w" using redis_incr_issued[of "''rate_limit:'' @ ident" w] i by simp
  moreover have "issued w2 = issued w1"
    using redis_expire_issued[of "''rate_limit:'' @ ident" "window rl" w1] e by simp
  ultimately show ?thesis
    using True i e by (simp add: is_allowed_def Let_def split: sum.splits)
qed

text \<open>
  A request that the rate limiter denies is answered with 429 at once: no route
  runs and no backend is contacted.
\<close>

theorem denied_request_contacts_no_backend:
  "is_allowed rate_limiter (identifier_of request) w = (Inr False, w1) \<Longrightarrow>
     app e net request w
       = (Inr \<lparr> status = 429, headers = Map.empty,
                 body = Structured (JObj [(''detail'', JStr ''Rate limit exceeded'')]) \<rparr>, w1)
     \<and> issued w1 = issued w"
  using is_allowed_issued [of rate_limiter "identifier_of request" w]
  by (simp add: app_def logging_and_rate_limit_middleware_def JSONResponse_def Let_def)

theorem denied_request_contacts_no_backend_witness:
  "fst (app sample_env all_up (sample_request ''POST'' ''/auth/login'' []) world_at_limit)
     = Inr \<lparr> status = 429, headers = Map.empty,
             body = Structured (JObj [(''detail'', JStr ''Rate limit exceeded'')]) \<rparr>
   \<and> issued (snd (app sample_env all_up (sample_request ''POST'' ''/auth/login'' []) world_at_limit)) = []"
proof -
  let ?rq = "sample_request ''POST'' ''/auth/login'' []"
  have d: "is_allowed rate_limiter (identifier_of ?rq) world_at_limit
             = (Inr False, world_at_limit\<lparr> redis_db :=
                  [''rate_limit:10.0.0.7:curl'' \<mapsto> (Counter 101, Some 3600)] \<rparr>)"
    by (simp add: identifier_of_def sample_request_def is_allowed_def redis_incr_def
          redis_expire_def redis_lookup_def rate_limiter_def world_init_def world_at_limit_def)
  show ?thesis
    using denied_request_contacts_no_backend [OF d, of sample_env all_up]
    by (simp add: world_at_limit_def world_init_def)
qed

text \<open>
  For a token whose identity lies in the cache and has not expired there,
  \<open>verify_token\<close> returns the cached identity; it sends nothing to the authentication
  service and leaves the cache as it is.
\<close>

theorem cached_token_no_upstream_call:
  assumes "req_headers request ''authorization'' = Some h" and "h \<noteq> []" and "redis_up w"
    and "redis_db w (''token:'' @ str_replace ''Bearer '' [] h) = Some (Blob (json_dumps user), Some t)"
    and "clock w < t"
  shows "verify_token net request w = (user, w)"
  using assms
  by (simp add: verify_token_def redis_get_def redis_lookup_def json_dumps_def Let_def)

theorem cached_token_no_upstream_call_witness:
  "verify_token refusing (sample_request ''GET'' ''/clients/1'' ''Bearer abc'')
     (world_init\<lparr> redis_db := [''token:abc'' \<mapsto> (Blob (json_dumps sample_user), Some 600)] \<rparr>)
   = (sample_user,
      world_init\<lparr> redis_db := [''token:abc'' \<mapsto> (Blob (json_dumps sample_user), Some 600)] \<rparr>)"
proof -
  let ?w = "world_init\<lparr> redis_db := [''token:abc'' \<mapsto> (Blob (json_dumps sample_user), Some 600)] \<rparr>"
  have a: "req_headers (sample_request ''GET'' ''/clients/1'' ''Bearer abc'') ''authorization''
             = Some ''Bearer abc''"
    by (simp add: sample_request_def)
  have b: "''Bearer abc'' \<noteq> []" by simp
  have c: "redis_up ?w" by (simp add: world_init_def)
  have d: "redis_db ?w (''token:'' @ str_replace ''Bearer '' [] ''Bearer abc'')
             = Some (Blob (json_dumps sample_user), Some 600)"
    by (simp add: str_replace_def)
  have e: "clock ?w < 600" by (simp add: world_init_def)
  show ?thesis
    using cached_token_no_upstream_call [where request = "sample_request ''GET'' ''/clients/1'' ''Bearer abc''"
       and h = "''Bearer abc''" and w = ?w and user = sample_user and t = 600 and net = refusing] a b c d e
    by simp
qed

text \<open>
  The request that \<open>proxy_request\<close> sends to the backend has the caller's method and
  query, the URL of the service followed by the path, the request id and the caller's
  address as headers, and the caller's body for POST, PUT and PATCH; for every other
  method no body is sent.
\<close>

theorem proxy_forwards_body_by_method:
  "call_method (proxy_call service_url path request rid) = req_method request
   \<and> call_url (proxy_call service_url path request rid) = service_url @ path
   \<and> call_params (proxy_call service_url path request rid) = req_query request
   \<and> call_content (proxy_call service_url path request rid)
       = (if req_method request = ''POST'' \<or> req_method request = ''PUT''
             \<or> req_method request = ''PATCH''
          then Some (req_body request) else None)
   \<and> call_headers (proxy_call service_url path request rid) ''X-Request-ID'' = Some rid
   \<and> call_headers (proxy_call service_url path request rid) ''X-Forwarded-For''
       = Some (client_host request)"
  by (simp add: proxy_call_def Let_def)

theorem proxy_forwards_body_by_method_witness:
  "call_content (proxy_call ''http://billing-service:8005'' ''/invoices''
       ((sample_request ''POST'' ''/billing/invoices'' [])\<lparr> req_body := ''{}'' \<rparr>) ''uuid-1'')
     = Some ''{}''
   \<and> call_content (proxy_call ''http://billing-service:8005'' ''/invoices''
       ((sample_request ''GET'' ''/billing/invoices'' [])\<lparr> req_body := ''{}'' \<rparr>) ''uuid-1'')
     = None"
  using proxy_forwards_body_by_method [of "''http://billing-service:8005''" "''/invoices''"
          "(sample_request ''POST'' ''/billing/invoices'' [])\<lparr> req_body := ''{}'' \<rparr>" "''uuid-1''"]
        proxy_forwards_body_by_method [of "''http://billing-service:8005''" "''/invoices''"
          "(sample_request ''GET'' ''/billing/invoices'' [])\<lparr> req_body := ''{}'' \<rparr>" "''uuid-1''"]
  by (simp add: sample_request_def)

end
